theory Spec2Isabelle
  imports Main "HOL-Library.Word" "HOL-Library.Multiset"
begin

section \<open>GtkTim2SortModel: the data model\<close>

text \<open>
  The development embeds \<^verbatim>\<open>gtk/gtktim2sortmodel.c\<close>. A \<^verbatim>\<open>guint\<close> is
  a 32-bit word, so \<open>+\<close> and \<open>-\<close> wrap as they do in C. Pointers to collaborators
  (\<^verbatim>\<open>GListModel *\<close>, \<^verbatim>\<open>GtkSorter *\<close>) are addresses, with
  \<open>None\<close> for \<^verbatim>\<open>NULL\<close>; what stands behind an address is read from an
  environment, because the collaborators change behind the object's back. Items are
  \<^verbatim>\<open>GObject *\<close> values of an arbitrary type \<open>'a\<close>, again with \<open>None\<close>
  for \<^verbatim>\<open>NULL\<close>.
\<close>

type_synonym guint = "32 word"

type_synonym model_ref = nat

type_synonym sorter_ref = nat

datatype gtk_sorter_order =
  GTK_SORTER_ORDER_PARTIAL | GTK_SORTER_ORDER_NONE | GTK_SORTER_ORDER_TOTAL

datatype property = PROP_MODEL | PROP_SORTER | PROP_SORTING

text \<open>\<^verbatim>\<open>struct _SortItem { GObject *item; guint position; }\<close>\<close>

record 'a sort_item =
  item :: "'a option"
  position :: guint

text \<open>
  What the object does to the world outside its own struct, in the order it does it:
  the signal \<^verbatim>\<open>items-changed\<close> it emits
  (\<^verbatim>\<open>g_list_model_items_changed\<close>), the property notifications
  (\<^verbatim>\<open>g_object_notify_by_pspec\<close>), the item references it gives back
  (\<^verbatim>\<open>g_clear_object\<close> on a non-\<^verbatim>\<open>NULL\<close> item), the idle source
  it installs and removes (\<^verbatim>\<open>g_idle_add\<close>, \<^verbatim>\<open>g_source_remove\<close>),
  and the calls that change the vector \<^verbatim>\<open>items\<close>
  (\<^verbatim>\<open>sort_array_append\<close>, \<^verbatim>\<open>sort_array_clear\<close>,
  \<^verbatim>\<open>sort_array_set_size\<close>). The references the object acquires are not
  listed: each comes with the item \<^verbatim>\<open>g_list_model_get_item\<close> returns, and
  the one \<^verbatim>\<open>gtk_tim2_sort_model_get_item\<close> adds belongs to its caller.
\<close>

datatype 'a action =
  ItemsChanged guint guint guint
| Notify property
| ObjectUnref 'a
| IdleAdd
| SourceRemove
| ArrayAppend "'a sort_item"
| ArrayClear
| ArraySetSize nat

text \<open>
  \<^verbatim>\<open>struct _GtkTim2SortModel\<close>. The fields \<^verbatim>\<open>start_time\<close> and
  \<^verbatim>\<open>steps\<close> are left out: they are written for the profiler marks only and
  no branch reads them. \<^verbatim>\<open>GtkTimSort\<close> is declared in
  \<^verbatim>\<open>gtktimsortprivate.h\<close>; its state is the type parameter \<open>'t\<close>.
  The field \<open>trace\<close> is the list of actions so far.
\<close>

record ('a, 't) tim2_sort_model =
  model :: "model_ref option"
  sorter :: "sorter_ref option"
  tsort :: 't
  sort_cb :: guint
  items :: "'a sort_item list"
  trace :: "'a action list"

text \<open>
  The collaborators. \<open>list_items E m\<close> is the current content of the list model at
  address \<open>m\<close>, \<open>sorter_order E s\<close> what \<^verbatim>\<open>gtk_sorter_get_order\<close>
  answers for the sorter at \<open>s\<close>. The four \<^verbatim>\<open>gtk_tim_sort_\<close> functions
  are parameters: \<open>tim_sort_init\<close> receives the array (base and size) and the
  user data, \<open>tim_sort_step\<close> returns whether a step was performed together with
  the new sort state and the array as the step left it. \<open>tim_sort_zero\<close> is the
  zero-filled struct of a new instance.
\<close>

record ('a, 't) env =
  list_items :: "model_ref \<Rightarrow> 'a list"
  sorter_order :: "sorter_ref \<Rightarrow> gtk_sorter_order"
  tim_sort_zero :: 't
  tim_sort_init :: "'a sort_item list \<Rightarrow> sorter_ref option \<Rightarrow> 't"
  tim_sort_set_already_sorted :: "'t \<Rightarrow> guint \<Rightarrow> 't"
  tim_sort_step :: "'t \<Rightarrow> 'a sort_item list \<Rightarrow> bool \<times> 't \<times> 'a sort_item list"
  tim_sort_finish :: "'t \<Rightarrow> 't"

section \<open>The collaborators' interfaces\<close>

text \<open>
  \<^verbatim>\<open>g_list_model_get_n_items\<close> returns a \<^verbatim>\<open>guint\<close>, and 0 for
  \<^verbatim>\<open>NULL\<close>; \<^verbatim>\<open>g_list_model_get_item\<close> returns
  \<^verbatim>\<open>NULL\<close> for \<^verbatim>\<open>NULL\<close> and for a position that is not
  smaller than the number of items.
\<close>

definition g_list_model_get_n_items :: "('a, 't) env \<Rightarrow> model_ref option \<Rightarrow> guint" where
  "g_list_model_get_n_items E m =
     (case m of None \<Rightarrow> 0 | Some r \<Rightarrow> of_nat (length (list_items E r)))"

definition g_list_model_get_item :: "('a, 't) env \<Rightarrow> model_ref option \<Rightarrow> guint \<Rightarrow> 'a option" where
  "g_list_model_get_item E m pos =
     (case m of
        None \<Rightarrow> None
      | Some r \<Rightarrow>
          if unat pos < length (list_items E r) then Some (list_items E r ! unat pos)
          else None)"

text \<open>
  \<^verbatim>\<open>g_idle_add\<close> returns the id of the new source, which is greater than 0.
  The object only compares the id with 0 and hands it back to
  \<^verbatim>\<open>g_source_remove\<close>, so the model takes 1.
\<close>

definition g_idle_add :: guint where
  "g_idle_add = 1"

definition emit :: "'a action \<Rightarrow> ('a, 't) tim2_sort_model \<Rightarrow> ('a, 't) tim2_sort_model" where
  "emit a self = self\<lparr>trace := trace self @ [a]\<rparr>"

text \<open>\<^verbatim>\<open>sort_item_clear\<close>: \<^verbatim>\<open>g_clear_object (&si->item)\<close>.\<close>

definition sort_item_clear :: "'a sort_item \<Rightarrow> 'a action list" where
  "sort_item_clear si = (case item si of None \<Rightarrow> [] | Some x \<Rightarrow> [ObjectUnref x])"

section \<open>The list model interface of the object\<close>

definition gtk_tim2_sort_model_get_n_items ::
  "('a, 't) env \<Rightarrow> ('a, 't) tim2_sort_model \<Rightarrow> guint" where
  "gtk_tim2_sort_model_get_n_items E self =
     (if model self = None then 0 else g_list_model_get_n_items E (model self))"

text \<open>
  The comparison \<^verbatim>\<open>position >= sort_array_get_size (&self->items)\<close> is made
  at the width of \<^verbatim>\<open>gsize\<close>, so on the numbers themselves.
\<close>

definition gtk_tim2_sort_model_get_item ::
  "('a, 't) env \<Rightarrow> ('a, 't) tim2_sort_model \<Rightarrow> guint \<Rightarrow> 'a option" where
  "gtk_tim2_sort_model_get_item E self pos =
     (if model self = None then None
      else if items self = [] then g_list_model_get_item E (model self) pos
      else if length (items self) \<le> unat pos then None
      else item (items self ! unat pos))"

section \<open>Starting and stopping a sort\<close>

definition gtk_tim2_sort_model_is_sorting :: "('a, 't) tim2_sort_model \<Rightarrow> bool" where
  "gtk_tim2_sort_model_is_sorting self = (sort_cb self \<noteq> 0)"

definition gtk_tim2_sort_model_stop_sorting ::
  "('a, 't) env \<Rightarrow> ('a, 't) tim2_sort_model \<Rightarrow> ('a, 't) tim2_sort_model" where
  "gtk_tim2_sort_model_stop_sorting E self =
     (if sort_cb self = 0 then self
      else self\<lparr>tsort := tim_sort_finish E (tsort self),
                sort_cb := 0,
                trace := trace self @ [SourceRemove, Notify PROP_SORTING]\<rparr>)"

text \<open>
  The idle callback. The result is the state and the callback's return value:
  \<open>True\<close> for \<^verbatim>\<open>G_SOURCE_CONTINUE\<close>, \<open>False\<close> for
  \<^verbatim>\<open>G_SOURCE_REMOVE\<close>.
\<close>

definition gtk_tim2_sort_model_sort_cb ::
  "('a, 't) env \<Rightarrow> ('a, 't) tim2_sort_model \<Rightarrow> ('a, 't) tim2_sort_model \<times> bool" where
  "gtk_tim2_sort_model_sort_cb E self =
     (case tim_sort_step E (tsort self) (items self) of
        (stepped, t, xs) \<Rightarrow>
          let s = self\<lparr>tsort := t, items := xs\<rparr> in
          if stepped then
            (let n_items = (of_nat (length (items s)) :: guint)
             in (emit (ItemsChanged 0 n_items n_items) s, True))
          else (gtk_tim2_sort_model_stop_sorting E s, False))"

definition gtk_tim2_sort_model_start_sorting ::
  "('a, 't) tim2_sort_model \<Rightarrow> ('a, 't) tim2_sort_model" where
  "gtk_tim2_sort_model_start_sorting self =
     (if sort_cb self \<noteq> 0 then self
      else self\<lparr>sort_cb := g_idle_add,
                trace := trace self @ [IdleAdd, Notify PROP_SORTING]\<rparr>)"

text \<open>
  \<^verbatim>\<open>sort_array_clear\<close> runs the vector's free function,
  \<^verbatim>\<open>sort_item_clear\<close>, on every element.
\<close>

definition gtk_tim2_sort_model_clear_items ::
  "('a, 't) env \<Rightarrow> ('a, 't) tim2_sort_model \<Rightarrow> ('a, 't) tim2_sort_model" where
  "gtk_tim2_sort_model_clear_items E self =
     (let s = gtk_tim2_sort_model_stop_sorting E self
      in s\<lparr>items := [],
            trace := trace s @ ArrayClear # concat (map sort_item_clear (items s))\<rparr>)"

definition gtk_tim2_sort_model_should_sort ::
  "('a, 't) env \<Rightarrow> ('a, 't) tim2_sort_model \<Rightarrow> bool" where
  "gtk_tim2_sort_model_should_sort E self =
     (case sorter self of
        None \<Rightarrow> False
      | Some s \<Rightarrow> model self \<noteq> None \<and> sorter_order E s \<noteq> GTK_SORTER_ORDER_NONE)"

text \<open>
  The entries a loop \<^verbatim>\<open>for (i = from; i < to; i++)\<close> appends, each
  \<^verbatim>\<open>{ g_list_model_get_item (self->model, i), i }\<close>. The counter is a
  \<^verbatim>\<open>guint\<close>: the loop runs through the numbers from \<open>unat from\<close> up to
  \<open>unat to\<close>, and not at all when \<open>to \<le> from\<close>.
\<close>

definition fetch_items ::
  "('a, 't) env \<Rightarrow> model_ref option \<Rightarrow> guint \<Rightarrow> guint \<Rightarrow> 'a sort_item list" where
  "fetch_items E m from to =
     map (\<lambda>i. \<lparr>item = g_list_model_get_item E m (of_nat i), position = of_nat i\<rparr>)
       [unat from ..< unat to]"

definition append_items ::
  "'a sort_item list \<Rightarrow> ('a, 't) tim2_sort_model \<Rightarrow> ('a, 't) tim2_sort_model" where
  "append_items new self =
     self\<lparr>items := items self @ new, trace := trace self @ map ArrayAppend new\<rparr>"

definition gtk_tim2_sort_model_create_items ::
  "('a, 't) env \<Rightarrow> ('a, 't) tim2_sort_model \<Rightarrow> ('a, 't) tim2_sort_model" where
  "gtk_tim2_sort_model_create_items E self =
     (if \<not> gtk_tim2_sort_model_should_sort E self then self
      else
        let n_items = g_list_model_get_n_items E (model self)
        in append_items (fetch_items E (model self) 0 n_items) self)"

definition gtk_tim2_sort_model_resort ::
  "('a, 't) env \<Rightarrow> guint \<Rightarrow> ('a, 't) tim2_sort_model \<Rightarrow> ('a, 't) tim2_sort_model" where
  "gtk_tim2_sort_model_resort E already_sorted self =
     (let sorting = gtk_tim2_sort_model_is_sorting self;
          already = (if sorting then 0 else already_sorted);
          s = (if sorting then gtk_tim2_sort_model_stop_sorting E self else self)
      in gtk_tim2_sort_model_start_sorting
           (s\<lparr>tsort := tim_sort_set_already_sorted E
                          (tim_sort_init E (items s) (sorter s)) already\<rparr>))"

section \<open>Reconciling the store with an edit of the backing model\<close>

text \<open>
  The state of the loop in \<^verbatim>\<open>gtk_tim2_sort_model_remove_items\<close>: the entries
  written to the front of the array so far (\<open>kept\<close>, at the indices below
  \<open>valid\<close>), the counters \<^verbatim>\<open>valid\<close>, \<^verbatim>\<open>start\<close> and
  \<^verbatim>\<open>end\<close>, and the references given back.
\<close>

record 'a scan =
  kept :: "'a sort_item list"
  valid :: guint
  ustart :: guint
  uend :: guint
  released :: "'a action list"

text \<open>
  An entry that stays is copied to index \<^verbatim>\<open>valid\<close>
  (\<^verbatim>\<open>if (valid < i) ...\<close>; it is there already when \<^verbatim>\<open>valid == i\<close>)
  and \<^verbatim>\<open>valid\<close> is incremented.
\<close>

definition keep_item :: "'a sort_item \<Rightarrow> 'a scan \<Rightarrow> 'a scan" where
  "keep_item si st = st\<lparr>kept := kept st @ [si], valid := valid st + 1\<rparr>"

definition remove_items_body ::
  "guint \<Rightarrow> guint \<Rightarrow> guint \<Rightarrow> guint \<Rightarrow> guint \<Rightarrow> 'a sort_item \<Rightarrow> 'a scan \<Rightarrow> 'a scan" where
  "remove_items_body pos removed added n_items i si st =
     (if pos + removed \<le> position si then
        keep_item (si\<lparr>position := position si - removed + added\<rparr>) st
      else if pos \<le> position si then
        st\<lparr>ustart := min (ustart st) (valid st),
            uend := n_items - i - 1,
            released := released st @ sort_item_clear si\<rparr>
      else keep_item si st)"

fun remove_items_loop ::
  "guint \<Rightarrow> guint \<Rightarrow> guint \<Rightarrow> guint \<Rightarrow> guint \<Rightarrow> 'a sort_item list \<Rightarrow> 'a scan \<Rightarrow> 'a scan" where
  "remove_items_loop pos removed added n_items i [] st = st"
| "remove_items_loop pos removed added n_items i (si # rest) st =
     remove_items_loop pos removed added n_items (i + 1) rest
       (remove_items_body pos removed added n_items i si st)"

text \<open>
  \<^verbatim>\<open>n_items\<close> is the size of the vector read into a \<^verbatim>\<open>guint\<close>, and
  the loop visits the indices below it. A failing \<^verbatim>\<open>g_assert\<close> aborts the
  program: the result is \<open>None\<close>. When the assertion holds,
  \<^verbatim>\<open>memset\<close> zeroes the \<^verbatim>\<open>removed\<close> stale entries from index
  \<^verbatim>\<open>valid\<close> on, which are all entries up to \<^verbatim>\<open>n_items\<close>, and
  \<^verbatim>\<open>sort_array_set_size\<close> cuts the vector to \<^verbatim>\<open>valid\<close> entries:
  it runs \<^verbatim>\<open>sort_item_clear\<close> on the zeroed ones, which does nothing, and on
  the entries from index \<^verbatim>\<open>n_items\<close> on, which exist only in a vector of
  \<open>2 ^ 32\<close> entries or more. The result is the state with
  \<^verbatim>\<open>*unmodified_start\<close> and \<^verbatim>\<open>*unmodified_end\<close>.
\<close>

definition gtk_tim2_sort_model_remove_items ::
  "guint \<Rightarrow> guint \<Rightarrow> guint \<Rightarrow> ('a, 't) tim2_sort_model \<Rightarrow>
   (('a, 't) tim2_sort_model \<times> guint \<times> guint) option" where
  "gtk_tim2_sort_model_remove_items pos removed added self =
     (let n_items = (of_nat (length (items self)) :: guint);
          st = remove_items_loop pos removed added n_items 0
                 (take (unat n_items) (items self))
                 \<lparr>kept = [], valid = 0, ustart = n_items, uend = n_items, released = []\<rparr>
      in if valid st \<noteq> n_items - removed then None
         else Some (self\<lparr>items := kept st,
                         trace := trace self @ released st @ ArraySetSize (unat (valid st)) #
                           concat (map sort_item_clear (drop (unat n_items) (items self)))\<rparr>,
                    ustart st, uend st))"

text \<open>
  The handler of the backing model's \<^verbatim>\<open>items-changed\<close>. \<open>E\<close> is the
  environment after the edit: the handler reads the added items from the model
  as it is now. \<^verbatim>\<open>sort_array_get_size (&self->items) - added\<close> becomes the
  \<^verbatim>\<open>guint\<close> parameter of \<^verbatim>\<open>gtk_tim2_sort_model_resort\<close>, so it is
  taken modulo \<open>2 ^ 32\<close>.
\<close>

definition gtk_tim2_sort_model_items_changed_cb ::
  "('a, 't) env \<Rightarrow> guint \<Rightarrow> guint \<Rightarrow> guint \<Rightarrow> ('a, 't) tim2_sort_model \<Rightarrow>
   ('a, 't) tim2_sort_model option" where
  "gtk_tim2_sort_model_items_changed_cb E pos removed added self =
     (if removed = 0 \<and> added = 0 then Some self
      else if \<not> gtk_tim2_sort_model_should_sort E self then
        Some (emit (ItemsChanged pos removed added) self)
      else
        let was_sorting = gtk_tim2_sort_model_is_sorting self;
            s1 = gtk_tim2_sort_model_stop_sorting E self
        in case gtk_tim2_sort_model_remove_items pos removed added s1 of
             None \<Rightarrow> None
           | Some (s2, start, end') \<Rightarrow>
               let s3 =
                     (if 0 < added then
                        let s = append_items (fetch_items E (model s2) pos (pos + added)) s2
                        in gtk_tim2_sort_model_resort E
                             (if was_sorting then 0 else of_nat (length (items s)) - added) s
                      else if was_sorting then gtk_tim2_sort_model_resort E 0 s2
                      else s2);
                   n_items = of_nat (length (items s3)) - start - end'
               in Some (emit (ItemsChanged start (n_items - added + removed) n_items) s3))"

section \<open>Sorter and model\<close>

text \<open>
  The handler of the sorter's \<^verbatim>\<open>changed\<close> signal; \<open>srt\<close> is the sorter that
  emitted it. \<open>E\<close> is the environment after the change. The object connects the
  handler to the sorter it holds and disconnects it when it lets the sorter go, and
  likewise for the model and the edit handler above; the model has no list of
  connections: the handlers are run for the sorter and the model in the fields
  \<open>sorter\<close> and \<open>model\<close>. The references the
  object takes and gives back on the model and the sorter themselves
  (\<^verbatim>\<open>g_object_ref\<close>, \<^verbatim>\<open>g_clear_object\<close>) are not recorded in
  the trace, nor are the type checks of \<^verbatim>\<open>g_return_if_fail\<close>.
\<close>

definition gtk_tim2_sort_model_sorter_changed_cb ::
  "('a, 't) env \<Rightarrow> sorter_ref \<Rightarrow> ('a, 't) tim2_sort_model \<Rightarrow> ('a, 't) tim2_sort_model" where
  "gtk_tim2_sort_model_sorter_changed_cb E srt self =
     (let s1 = (if sorter_order E srt = GTK_SORTER_ORDER_NONE then
                  gtk_tim2_sort_model_clear_items E self
                else if items self = [] then gtk_tim2_sort_model_create_items E self
                else self);
          s2 = gtk_tim2_sort_model_resort E 0 s1;
          n_items = gtk_tim2_sort_model_get_n_items E s2
      in if 1 < n_items then emit (ItemsChanged 0 n_items n_items) s2 else s2)"

definition gtk_tim2_sort_model_clear_model ::
  "('a, 't) env \<Rightarrow> ('a, 't) tim2_sort_model \<Rightarrow> ('a, 't) tim2_sort_model" where
  "gtk_tim2_sort_model_clear_model E self =
     (if model self = None then self
      else gtk_tim2_sort_model_clear_items E (self\<lparr>model := None\<rparr>))"

definition gtk_tim2_sort_model_clear_sorter ::
  "('a, 't) env \<Rightarrow> ('a, 't) tim2_sort_model \<Rightarrow> ('a, 't) tim2_sort_model" where
  "gtk_tim2_sort_model_clear_sorter E self =
     (if sorter self = None then self
      else gtk_tim2_sort_model_clear_items E (self\<lparr>sorter := None\<rparr>))"

definition gtk_tim2_sort_model_dispose ::
  "('a, 't) env \<Rightarrow> ('a, 't) tim2_sort_model \<Rightarrow> ('a, 't) tim2_sort_model" where
  "gtk_tim2_sort_model_dispose E self =
     gtk_tim2_sort_model_clear_sorter E (gtk_tim2_sort_model_clear_model E self)"

definition gtk_tim2_sort_model_set_model ::
  "('a, 't) env \<Rightarrow> model_ref option \<Rightarrow> ('a, 't) tim2_sort_model \<Rightarrow> ('a, 't) tim2_sort_model" where
  "gtk_tim2_sort_model_set_model E new_model self =
     (if model self = new_model then self
      else
        let removed = gtk_tim2_sort_model_get_n_items E self;
            s1 = gtk_tim2_sort_model_clear_model E self;
            s2 = (if new_model \<noteq> None then
                    gtk_tim2_sort_model_resort E 0
                      (gtk_tim2_sort_model_create_items E (s1\<lparr>model := new_model\<rparr>))
                  else s1);
            added = (if new_model \<noteq> None then g_list_model_get_n_items E new_model else 0);
            s3 = (if 0 < removed \<or> 0 < added then emit (ItemsChanged 0 removed added) s2
                  else s2)
        in emit (Notify PROP_MODEL) s3)"

definition gtk_tim2_sort_model_get_model :: "('a, 't) tim2_sort_model \<Rightarrow> model_ref option" where
  "gtk_tim2_sort_model_get_model self = model self"

definition gtk_tim2_sort_model_set_sorter ::
  "('a, 't) env \<Rightarrow> sorter_ref option \<Rightarrow> ('a, 't) tim2_sort_model \<Rightarrow> ('a, 't) tim2_sort_model" where
  "gtk_tim2_sort_model_set_sorter E new_sorter self =
     (let s1 = gtk_tim2_sort_model_clear_sorter E self;
          s2 = (case new_sorter of
                  Some srt \<Rightarrow>
                    gtk_tim2_sort_model_sorter_changed_cb E srt (s1\<lparr>sorter := Some srt\<rparr>)
                | None \<Rightarrow>
                    let n_items = gtk_tim2_sort_model_get_n_items E s1
                    in if 1 < n_items then emit (ItemsChanged 0 n_items n_items) s1 else s1)
      in emit (Notify PROP_SORTER) s2)"

definition gtk_tim2_sort_model_get_sorter :: "('a, 't) tim2_sort_model \<Rightarrow> sorter_ref option" where
  "gtk_tim2_sort_model_get_sorter self = sorter self"

text \<open>
  \<^verbatim>\<open>gtk_tim2_sort_model_init\<close> leaves the zero-filled instance, and
  \<^verbatim>\<open>gtk_tim2_sort_model_new\<close> sets the two properties in the order
  \<^verbatim>\<open>g_object_new\<close> is given them: the model, then the sorter.
\<close>

definition gtk_tim2_sort_model_init :: "('a, 't) env \<Rightarrow> ('a, 't) tim2_sort_model" where
  "gtk_tim2_sort_model_init E =
     \<lparr>model = None, sorter = None, tsort = tim_sort_zero E, sort_cb = 0, items = [], trace = []\<rparr>"

definition gtk_tim2_sort_model_new ::
  "('a, 't) env \<Rightarrow> model_ref option \<Rightarrow> sorter_ref option \<Rightarrow> ('a, 't) tim2_sort_model" where
  "gtk_tim2_sort_model_new E m s =
     gtk_tim2_sort_model_set_sorter E s
       (gtk_tim2_sort_model_set_model E m (gtk_tim2_sort_model_init E))"

section \<open>A small environment for the closed examples\<close>

text \<open>
  The closed examples need a sorter to run. Items are numbers, and the stand-in for
  \<^verbatim>\<open>GtkTimSort\<close> is an insertion sort that places one entry per step: its
  state is the number of leading entries already in order,
  \<^verbatim>\<open>gtk_tim_sort_set_already_sorted\<close> sets that number, and a step reports
  \<open>False\<close> once no entry is left to place. Nothing but the closed examples uses it.
\<close>

definition demo_key :: "nat sort_item \<Rightarrow> nat" where
  "demo_key si = (case item si of None \<Rightarrow> 0 | Some v \<Rightarrow> Suc v)"

definition demo_step :: "nat \<Rightarrow> nat sort_item list \<Rightarrow> bool \<times> nat \<times> nat sort_item list" where
  "demo_step t xs =
     (if t < length xs then
        (True, Suc t, insort_key demo_key (xs ! t) (take t xs) @ drop (Suc t) xs)
      else (False, t, xs))"

definition demo_env :: "(model_ref \<Rightarrow> nat list) \<Rightarrow> (sorter_ref \<Rightarrow> gtk_sorter_order) \<Rightarrow> (nat, nat) env" where
  "demo_env ms so =
     \<lparr>list_items = ms, sorter_order = so, tim_sort_zero = 0,
      tim_sort_init = (\<lambda>xs d. 0),
      tim_sort_set_already_sorted = (\<lambda>t n. unat n),
      tim_sort_step = demo_step,
      tim_sort_finish = (\<lambda>t. t)\<rparr>"

text \<open>The idle callback, run until it returns \<^verbatim>\<open>G_SOURCE_REMOVE\<close> or the fuel is used up.\<close>

fun run_idle :: "nat \<Rightarrow> ('a, 't) env \<Rightarrow> ('a, 't) tim2_sort_model \<Rightarrow> ('a, 't) tim2_sort_model" where
  "run_idle 0 E self = self"
| "run_idle (Suc k) E self =
     (if sort_cb self = 0 then self
      else case gtk_tim2_sort_model_sort_cb E self of
             (s, again) \<Rightarrow> if again then run_idle k E s else s)"

text \<open>
  The list model at address 1 holds \<open>xs\<close>, every other one is empty; the sorter at
  address 7 reports a total order, every other one none.
\<close>

definition demo_lists :: "nat list \<Rightarrow> model_ref \<Rightarrow> nat list" where
  "demo_lists xs m = (if m = 1 then xs else [])"

definition demo_orders :: "sorter_ref \<Rightarrow> gtk_sorter_order" where
  "demo_orders s = (if s = 7 then GTK_SORTER_ORDER_TOTAL else GTK_SORTER_ORDER_NONE)"

definition demo :: "nat list \<Rightarrow> (nat, nat) env" where
  "demo xs = demo_env (demo_lists xs) demo_orders"

text \<open>
  The object over the model \<open>[10, 20, 30]\<close> and the sorter, once the sort has run to
  its end, with the trace emptied (lemma \<open>demo_sorted_reached\<close>).
\<close>

definition demo_sorted :: "(nat, nat) tim2_sort_model" where
  "demo_sorted =
     \<lparr>model = Some 1, sorter = Some 7, tsort = 3, sort_cb = 0,
      items = [\<lparr>item = Some 10, position = 0\<rparr>, \<lparr>item = Some 20, position = 1\<rparr>,
               \<lparr>item = Some 30, position = 2\<rparr>],
      trace = []\<rparr>"

text \<open>The same object right after its construction, the sort still to run.\<close>

definition demo_sorting :: "(nat, nat) tim2_sort_model" where
  "demo_sorting =
     \<lparr>model = Some 1, sorter = Some 7, tsort = 0, sort_cb = 1,
      items = [\<lparr>item = Some 10, position = 0\<rparr>, \<lparr>item = Some 20, position = 1\<rparr>,
               \<lparr>item = Some 30, position = 2\<rparr>],
      trace = []\<rparr>"

text \<open>The object over the model and no sorter, with the trace emptied.\<close>

definition demo_unsorted :: "(nat, nat) tim2_sort_model" where
  "demo_unsorted =
     \<lparr>model = Some 1, sorter = None, tsort = 0, sort_cb = 0, items = [], trace = []\<rparr>"

text \<open>
  The sorted object after the item 5 was appended to its model: the edit
  \<open>(3, 0, 1)\<close> has started a sort that takes the first three entries as sorted
  (lemma \<open>demo_appending_reached\<close>).
\<close>

definition demo_appending :: "(nat, nat) tim2_sort_model" where
  "demo_appending =
     \<lparr>model = Some 1, sorter = Some 7, tsort = 3, sort_cb = 1,
      items = [\<lparr>item = Some 10, position = 0\<rparr>, \<lparr>item = Some 20, position = 1\<rparr>,
               \<lparr>item = Some 30, position = 2\<rparr>, \<lparr>item = Some 5, position = 3\<rparr>],
      trace = []\<rparr>"

text \<open>
  The sorted object after its model replaced the item 10 at position 0 by 40: what the
  handler of the edit \<open>(0, 1, 1)\<close> leaves, with the trace of that handler.
\<close>

definition demo_replaced :: "(nat, nat) tim2_sort_model" where
  "demo_replaced =
     \<lparr>model = Some 1, sorter = Some 7, tsort = 2, sort_cb = 1,
      items = [\<lparr>item = Some 20, position = 1\<rparr>, \<lparr>item = Some 30, position = 2\<rparr>,
               \<lparr>item = Some 40, position = 0\<rparr>],
      trace = [ObjectUnref 10, ArraySetSize 2, ArrayAppend \<lparr>item = Some 40, position = 0\<rparr>,
               IdleAdd, Notify PROP_SORTING, ItemsChanged 0 1 1]\<rparr>"

text \<open>
  The same environment with a sorter that reports no order, and the object constructed
  in it over the model \<open>[10, 20, 30]\<close> and the sorter at address 7, with the trace
  emptied: its store is empty, and the sort that
  \<^verbatim>\<open>gtk_tim2_sort_model_sorter_changed_cb\<close> has started over the empty store
  is under way.
\<close>

definition demo_unordered :: "nat list \<Rightarrow> (nat, nat) env" where
  "demo_unordered xs = demo_env (demo_lists xs) (\<lambda>s. GTK_SORTER_ORDER_NONE)"

definition demo_passing :: "(nat, nat) tim2_sort_model" where
  "demo_passing =
     \<lparr>model = Some 1, sorter = Some 7, tsort = 0, sort_cb = 1, items = [], trace = []\<rparr>"

text \<open>
  That object after the sorter has taken a total order and the model has appended the
  item 5, the handler of the edit \<open>(3, 0, 1)\<close> having run before the handler of
  the sorter's \<^verbatim>\<open>changed\<close>: what the edit handler leaves, with its trace.
\<close>

definition demo_stale :: "(nat, nat) tim2_sort_model" where
  "demo_stale =
     \<lparr>model = Some 1, sorter = Some 7, tsort = 0, sort_cb = 1,
      items = [\<lparr>item = Some 5, position = 3\<rparr>],
      trace = [SourceRemove, Notify PROP_SORTING, ArraySetSize 0,
               ArrayAppend \<lparr>item = Some 5, position = 3\<rparr>, IdleAdd, Notify PROP_SORTING,
               ItemsChanged 0 0 1]\<rparr>"

section \<open>Derived notions\<close>

text \<open>The backing sequence: the content of the model the object holds, empty without one.\<close>

definition backing :: "('a, 't) env \<Rightarrow> ('a, 't) tim2_sort_model \<Rightarrow> 'a list" where
  "backing E self = (case model self of None \<Rightarrow> [] | Some m \<Rightarrow> list_items E m)"

text \<open>
  The entries a scan for the edit \<open>(pos, removed, added)\<close> drops are those with a
  position in \<open>[pos, pos + removed)\<close>; an entry at \<open>pos + removed\<close> or above gets
  the position \<^verbatim>\<open>position - removed + added\<close>. Both are stated on the numbers;
  the scan itself compares words.
\<close>

definition in_removed_range :: "guint \<Rightarrow> guint \<Rightarrow> 'a sort_item \<Rightarrow> bool" where
  "in_removed_range pos removed si =
     (unat pos \<le> unat (position si) \<and> unat (position si) < unat pos + unat removed)"

definition shift_position :: "guint \<Rightarrow> guint \<Rightarrow> guint \<Rightarrow> 'a sort_item \<Rightarrow> 'a sort_item" where
  "shift_position pos removed added si =
     (if unat pos + unat removed \<le> unat (position si)
      then si\<lparr>position := position si - removed + added\<rparr> else si)"

text \<open>
  The entries that stay, in the order the store has them, and the same entries with
  their positions moved: the store a scan is to leave behind.
\<close>

definition survivors :: "guint \<Rightarrow> guint \<Rightarrow> 'a sort_item list \<Rightarrow> 'a sort_item list" where
  "survivors pos removed xs = filter (\<lambda>si. \<not> in_removed_range pos removed si) xs"

definition reconciled :: "guint \<Rightarrow> guint \<Rightarrow> guint \<Rightarrow> 'a sort_item list \<Rightarrow> 'a sort_item list" where
  "reconciled pos removed added xs =
     map (shift_position pos removed added) (survivors pos removed xs)"

text \<open>
  The loop of \<^verbatim>\<open>gtk_tim2_sort_model_remove_items\<close> run over a whole store, from
  its initial counters.
\<close>

definition scan_store :: "guint \<Rightarrow> guint \<Rightarrow> guint \<Rightarrow> 'a sort_item list \<Rightarrow> 'a scan" where
  "scan_store pos removed added xs =
     remove_items_loop pos removed added (of_nat (length xs)) 0 xs
       \<lparr>kept = [], valid = 0, ustart = of_nat (length xs), uend = of_nat (length xs),
        released = []\<rparr>"

text \<open>
  The two stages of the edit handler on its sorting path, written with the result of the
  scan: the object once the sort is stopped and the store scanned, and the object once
  the added items are appended and the sort is started again.
\<close>

definition after_scan ::
  "('a, 't) env \<Rightarrow> guint \<Rightarrow> guint \<Rightarrow> guint \<Rightarrow> ('a, 't) tim2_sort_model \<Rightarrow> ('a, 't) tim2_sort_model" where
  "after_scan E pos removed added self =
     (let s1 = gtk_tim2_sort_model_stop_sorting E self
      in s1\<lparr>items := reconciled pos removed added (items self),
             trace := trace s1 @
               concat (map sort_item_clear
                 (filter (in_removed_range pos removed) (items self))) @
               [ArraySetSize (length (survivors pos removed (items self)))]\<rparr>)"

definition after_append ::
  "('a, 't) env \<Rightarrow> guint \<Rightarrow> guint \<Rightarrow> guint \<Rightarrow> ('a, 't) tim2_sort_model \<Rightarrow> ('a, 't) tim2_sort_model" where
  "after_append E pos removed added self =
     (let s2 = after_scan E pos removed added self
      in if 0 < added then
           let s = append_items (fetch_items E (model self) pos (pos + added)) s2
           in gtk_tim2_sort_model_resort E
                (if sort_cb self \<noteq> 0 then 0 else of_nat (length (items s)) - added) s
         else if sort_cb self \<noteq> 0 then gtk_tim2_sort_model_resort E 0 s2
         else s2)"

text \<open>
  A populated store for a backing model of \<open>n\<close> items: as many entries, with
  positions that are pairwise distinct and below \<open>n\<close>.
\<close>

definition populated :: "nat \<Rightarrow> 'a sort_item list \<Rightarrow> bool" where
  "populated n xs =
     (length xs = n \<and> distinct (map position xs) \<and> (\<forall>si\<in>set xs. unat (position si) < n))"

text \<open>
  The position of an entry as a number, and where the edit \<open>(p, r, a)\<close> moves the
  position \<open>k\<close> of an entry that stays.
\<close>

definition posn :: "'a sort_item \<Rightarrow> nat" where
  "posn si = unat (position si)"

definition moved :: "nat \<Rightarrow> nat \<Rightarrow> nat \<Rightarrow> nat \<Rightarrow> nat" where
  "moved p r a k = (if p + r \<le> k then k - r + a else k)"

text \<open>
  The number of entries at the front of a store before the first one an edit drops, and
  the number at its back behind the last one; both are the size of the store when the
  edit drops nothing.
\<close>

definition untouched_prefix :: "guint \<Rightarrow> guint \<Rightarrow> 'a sort_item list \<Rightarrow> nat" where
  "untouched_prefix pos removed xs =
     length (takeWhile (\<lambda>si. \<not> in_removed_range pos removed si) xs)"

definition untouched_suffix :: "guint \<Rightarrow> guint \<Rightarrow> 'a sort_item list \<Rightarrow> nat" where
  "untouched_suffix pos removed xs = untouched_prefix pos removed (rev xs)"

section \<open>The store in step with the model\<close>

text \<open>
  What the object relies on in its collaborators: a list model reports its number of
  items as a \<^verbatim>\<open>guint\<close>, so it holds fewer than \<open>2 ^ 32\<close>; a step of the sort
  reorders the array and does nothing else to it.
\<close>

definition lists_fit :: "('a, 't) env \<Rightarrow> bool" where
  "lists_fit E = (\<forall>m. length (list_items E m) < 2 ^ 32)"

definition step_permutes :: "('a, 't) env \<Rightarrow> bool" where
  "step_permutes E = (\<forall>t xs. mset (snd (snd (tim_sort_step E t xs))) = mset xs)"

text \<open>
  The store agrees with the backing model: populated for it while the object sorts,
  empty while it does not.
\<close>

definition store_synced :: "('a, 't) env \<Rightarrow> ('a, 't) tim2_sort_model \<Rightarrow> bool" where
  "store_synced E self =
     (if gtk_tim2_sort_model_should_sort E self
      then populated (length (backing E self)) (items self)
      else items self = [])"

section \<open>What a listener sees\<close>

text \<open>
  The view: what \<^verbatim>\<open>g_list_model_get_item\<close> on the object returns at the
  positions below \<^verbatim>\<open>g_list_model_get_n_items\<close>.
\<close>

definition view :: "('a, 't) env \<Rightarrow> ('a, 't) tim2_sort_model \<Rightarrow> 'a option list" where
  "view E self =
     map (\<lambda>i. gtk_tim2_sort_model_get_item E self (of_nat i))
       [0..<unat (gtk_tim2_sort_model_get_n_items E self)]"

text \<open>
  A notification \<open>(start, removed, added)\<close> covers the change from the view \<open>old\<close>
  to the view \<open>new\<close> when every position outside the notified range holds the item
  it held before: the positions below \<open>start\<close>, and the positions behind the range,
  which held the items behind \<open>start + removed\<close> of the old view.
\<close>

definition notified_range_covers ::
  "'a list \<Rightarrow> 'a list \<Rightarrow> guint \<Rightarrow> guint \<Rightarrow> guint \<Rightarrow> bool" where
  "notified_range_covers old new start removed added =
     (take (unat start) new = take (unat start) old \<and>
      drop (unat start + unat added) new = drop (unat start + unat removed) old)"

text \<open>
  Whether a trace holds a call that changes the vector while an idle source is
  installed; \<open>active\<close> says whether one is installed at the start of the trace.
\<close>

fun mutates_while_sorting :: "bool \<Rightarrow> 'a action list \<Rightarrow> bool" where
  "mutates_while_sorting active [] = False"
| "mutates_while_sorting active (IdleAdd # as) = mutates_while_sorting True as"
| "mutates_while_sorting active (SourceRemove # as) = mutates_while_sorting False as"
| "mutates_while_sorting active (ArrayAppend si # as) =
     (active \<or> mutates_while_sorting active as)"
| "mutates_while_sorting active (ArrayClear # as) =
     (active \<or> mutates_while_sorting active as)"
| "mutates_while_sorting active (ArraySetSize n # as) =
     (active \<or> mutates_while_sorting active as)"
| "mutates_while_sorting active (a # as) = mutates_while_sorting active as"
section \<open>Basic facts\<close>

text \<open>
  The states of the closed examples are states the code reaches, the handler of an
  edit that removes nothing and adds nothing returns at its first test, and the number
  of items of the object is the length of its backing sequence, read as a word.
\<close>

lemma demo_sorted_reached:
  "(run_idle 4 (demo [10, 20, 30])
      (gtk_tim2_sort_model_new (demo [10, 20, 30]) (Some 1) (Some 7)))\<lparr>trace := []\<rparr> =
   demo_sorted"
  by code_simp

lemma demo_sorting_reached:
  "(gtk_tim2_sort_model_new (demo [10, 20, 30]) (Some 1) (Some 7))\<lparr>trace := []\<rparr> =
   demo_sorting"
  by code_simp

lemma demo_unsorted_reached:
  "(run_idle 1 (demo [10, 20, 30])
      (gtk_tim2_sort_model_new (demo [10, 20, 30]) (Some 1) None))\<lparr>trace := []\<rparr> =
   demo_unsorted"
  by code_simp

lemma empty_edit_ignored:
  "gtk_tim2_sort_model_items_changed_cb E pos 0 0 self = Some self"
  by (simp add: gtk_tim2_sort_model_items_changed_cb_def)

lemma n_items_backing:
  "gtk_tim2_sort_model_get_n_items E self = of_nat (length (backing E self))"
  by (simp add: gtk_tim2_sort_model_get_n_items_def g_list_model_get_n_items_def backing_def
      split: option.splits)

lemma unat_of_nat_guint: "n < 2 ^ 32 \<Longrightarrow> unat (of_nat n :: guint) = n"
  by (simp add: unat_of_nat)

lemma guint_le_of_nat: "n < 2 ^ 32 \<Longrightarrow> ((of_nat n :: guint) \<le> w) = (n \<le> unat w)"
  by (simp add: word_le_nat_alt unat_of_nat)

section \<open>The scan of the store\<close>

text \<open>
  What the loop of \<^verbatim>\<open>gtk_tim2_sort_model_remove_items\<close> computes when
  \<open>pos + removed\<close> does not wrap: the entries it keeps, its counter, the references it
  gives back, and from these the result of the function and of the edit handler, the
  assertion being the test whether as many entries are dropped as the edit removes.
\<close>

lemma guint_unat_add:
  "unat (a :: guint) + unat b < 2 ^ 32 \<Longrightarrow> unat (a + b) = unat a + unat b"
  using unat_add_lem [of a b] by simp

lemma remove_items_body_cases:
  assumes "unat pos + unat removed < 2 ^ 32"
  shows "remove_items_body pos removed added n i si st =
     (if in_removed_range pos removed si then
        st\<lparr>ustart := min (ustart st) (valid st), uend := n - i - 1,
            released := released st @ sort_item_clear si\<rparr>
      else keep_item (shift_position pos removed added si) st)"
  using assms
  by (auto simp: remove_items_body_def in_removed_range_def shift_position_def guint_unat_add
      word_le_nat_alt)

lemma loop_kept:
  assumes "unat pos + unat removed < 2 ^ 32"
  shows "kept (remove_items_loop pos removed added n i xs st) =
     kept st @ reconciled pos removed added xs"
proof (induction xs arbitrary: i st)
  case Nil
  show ?case by (simp add: reconciled_def survivors_def)
next
  case (Cons si xs)
  show ?case
    by (simp add: Cons.IH remove_items_body_cases [OF assms] reconciled_def survivors_def
        keep_item_def)
qed

lemma loop_valid:
  assumes "unat pos + unat removed < 2 ^ 32"
  shows "valid (remove_items_loop pos removed added n i xs st) =
     valid st + of_nat (length (survivors pos removed xs))"
proof (induction xs arbitrary: i st)
  case Nil
  show ?case by (simp add: survivors_def)
next
  case (Cons si xs)
  show ?case
    by (simp add: Cons.IH remove_items_body_cases [OF assms] survivors_def keep_item_def)
qed

lemma loop_released:
  assumes "unat pos + unat removed < 2 ^ 32"
  shows "released (remove_items_loop pos removed added n i xs st) =
     released st @ concat (map sort_item_clear (filter (in_removed_range pos removed) xs))"
proof (induction xs arbitrary: i st)
  case Nil
  show ?case by simp
next
  case (Cons si xs)
  show ?case
    by (simp add: Cons.IH remove_items_body_cases [OF assms] keep_item_def)
qed

lemma length_survivors:
  "length (survivors pos removed xs) + length (filter (in_removed_range pos removed) xs) =
   length xs"
  by (simp add: survivors_def sum_length_filter_compl add.commute)

lemma guint_of_nat_eq: "c < 2 ^ 32 \<Longrightarrow> ((of_nat c :: guint) = w) = (c = unat w)"
  by (auto simp: unat_of_nat_guint)

lemma remove_items_result:
  assumes H: "unat pos + unat removed < 2 ^ 32" and L: "length (items self) < 2 ^ 32"
  shows "gtk_tim2_sort_model_remove_items pos removed added self =
     (if length (filter (in_removed_range pos removed) (items self)) = unat removed then
        Some (self\<lparr>items := reconciled pos removed added (items self),
                   trace := trace self @
                     concat (map sort_item_clear
                       (filter (in_removed_range pos removed) (items self))) @
                     [ArraySetSize (length (survivors pos removed (items self)))]\<rparr>,
              ustart (scan_store pos removed added (items self)),
              uend (scan_store pos removed added (items self)))
      else None)"
proof -
  let ?xs = "items self"
  let ?c = "length (filter (in_removed_range pos removed) ?xs)"
  let ?k = "length (survivors pos removed ?xs)"
  have sum: "?k + ?c = length ?xs"
    by (rule length_survivors)
  have un: "unat (of_nat (length ?xs) :: guint) = length ?xs"
    using L by (rule unat_of_nat_guint)
  have c: "?c < 2 ^ 32" and k: "?k < 2 ^ 32"
    using sum L by arith+
  have "(of_nat (length ?xs) :: guint) = of_nat ?k + of_nat ?c"
    using sum by (metis of_nat_add)
  then have test: "((of_nat ?k :: guint) = of_nat (length ?xs) - removed) = (?c = unat removed)"
    using guint_of_nat_eq [OF c, of removed] by auto
  have uk: "unat (of_nat ?k :: guint) = ?k"
    using k by (rule unat_of_nat_guint)
  have uk': "?c = unat removed \<Longrightarrow> unat (of_nat (length ?xs) - removed :: guint) = ?k"
    using test uk by auto
  show ?thesis
    unfolding gtk_tim2_sort_model_remove_items_def Let_def un
    by (simp add: scan_store_def [symmetric])
      (simp add: scan_store_def loop_kept [OF H] loop_valid [OF H] loop_released [OF H]
        test uk')
qed

lemma g_idle_add_nonzero: "g_idle_add \<noteq> 0"
  by (simp add: g_idle_add_def)

lemma stop_sorting_fields:
  "model (gtk_tim2_sort_model_stop_sorting E s) = model s"
  "sorter (gtk_tim2_sort_model_stop_sorting E s) = sorter s"
  "items (gtk_tim2_sort_model_stop_sorting E s) = items s"
  "sort_cb (gtk_tim2_sort_model_stop_sorting E s) = 0"
  "tsort (gtk_tim2_sort_model_stop_sorting E s) =
     (if sort_cb s = 0 then tsort s else tim_sort_finish E (tsort s))"
  "trace (gtk_tim2_sort_model_stop_sorting E s) =
     trace s @ (if sort_cb s = 0 then [] else [SourceRemove, Notify PROP_SORTING])"
  by (simp_all add: gtk_tim2_sort_model_stop_sorting_def)

lemma resort_fields:
  "model (gtk_tim2_sort_model_resort E a s) = model s"
  "sorter (gtk_tim2_sort_model_resort E a s) = sorter s"
  "items (gtk_tim2_sort_model_resort E a s) = items s"
  "sort_cb (gtk_tim2_sort_model_resort E a s) = g_idle_add"
  "tsort (gtk_tim2_sort_model_resort E a s) =
     tim_sort_set_already_sorted E (tim_sort_init E (items s) (sorter s))
       (if sort_cb s = 0 then a else 0)"
  "trace (gtk_tim2_sort_model_resort E a s) =
     trace s @ (if sort_cb s = 0 then [] else [SourceRemove, Notify PROP_SORTING]) @
     [IdleAdd, Notify PROP_SORTING]"
  by (simp_all add: gtk_tim2_sort_model_resort_def gtk_tim2_sort_model_start_sorting_def
      gtk_tim2_sort_model_is_sorting_def Let_def stop_sorting_fields)

lemma emit_fields:
  "model (emit a s) = model s"
  "sorter (emit a s) = sorter s"
  "items (emit a s) = items s"
  "sort_cb (emit a s) = sort_cb s"
  "tsort (emit a s) = tsort s"
  "trace (emit a s) = trace s @ [a]"
  by (simp_all add: emit_def)

lemma append_items_fields:
  "model (append_items new s) = model s"
  "sorter (append_items new s) = sorter s"
  "items (append_items new s) = items s @ new"
  "sort_cb (append_items new s) = sort_cb s"
  "tsort (append_items new s) = tsort s"
  "trace (append_items new s) = trace s @ map ArrayAppend new"
  by (simp_all add: append_items_def)

lemma should_sort_fields:
  "model s' = model s \<Longrightarrow> sorter s' = sorter s \<Longrightarrow>
   gtk_tim2_sort_model_should_sort E s' = gtk_tim2_sort_model_should_sort E s"
  by (simp add: gtk_tim2_sort_model_should_sort_def split: option.splits)

lemma items_changed_sorting:
  assumes S: "gtk_tim2_sort_model_should_sort E self"
    and N: "removed \<noteq> 0 \<or> added \<noteq> 0"
    and H: "unat pos + unat removed < 2 ^ 32"
    and L: "length (items self) < 2 ^ 32"
  shows "gtk_tim2_sort_model_items_changed_cb E pos removed added self =
     (if length (filter (in_removed_range pos removed) (items self)) = unat removed then
        let s3 = after_append E pos removed added self;
            n = of_nat (length (items s3))
                - ustart (scan_store pos removed added (items self))
                - uend (scan_store pos removed added (items self))
        in Some (emit (ItemsChanged (ustart (scan_store pos removed added (items self)))
                         (n - added + removed) n) s3)
      else None)"
proof -
  have L1: "length (items (gtk_tim2_sort_model_stop_sorting E self)) < 2 ^ 32"
    using L by (simp add: stop_sorting_fields)
  show ?thesis
    using S N
    by (auto simp: gtk_tim2_sort_model_items_changed_cb_def Let_def
        remove_items_result [OF H L1] stop_sorting_fields after_append_def after_scan_def
        gtk_tim2_sort_model_is_sorting_def)
qed

lemma after_scan_fields:
  "model (after_scan E pos removed added s) = model s"
  "sorter (after_scan E pos removed added s) = sorter s"
  "items (after_scan E pos removed added s) = reconciled pos removed added (items s)"
  "sort_cb (after_scan E pos removed added s) = 0"
  "tsort (after_scan E pos removed added s) =
     (if sort_cb s = 0 then tsort s else tim_sort_finish E (tsort s))"
  by (simp_all add: after_scan_def Let_def stop_sorting_fields)

lemma after_append_fields:
  "model (after_append E pos removed added s) = model s"
  "sorter (after_append E pos removed added s) = sorter s"
  "items (after_append E pos removed added s) =
     reconciled pos removed added (items s) @
     (if 0 < added then fetch_items E (model s) pos (pos + added) else [])"
  "sort_cb (after_append E pos removed added s) =
     (if 0 < added \<or> sort_cb s \<noteq> 0 then g_idle_add else 0)"
  by (simp_all add: after_append_def Let_def after_scan_fields resort_fields
      append_items_fields)

lemma after_append_tsort:
  "tsort (after_append E pos removed added s) =
     (if 0 < added \<or> sort_cb s \<noteq> 0 then
        tim_sort_set_already_sorted E
          (tim_sort_init E (items (after_append E pos removed added s)) (sorter s))
          (if sort_cb s \<noteq> 0 then 0
           else of_nat (length (items (after_append E pos removed added s))) - added)
      else tsort s)"
  by (simp add: after_append_def Let_def after_scan_fields resort_fields
      append_items_fields)

section \<open>The edit handler on its sorting path\<close>

text \<open>
  The fields of the object the edit handler returns: the sort it starts or leaves
  alone, and the store.
\<close>

lemma demo_appending_reached:
  "map_option (\<lambda>s. s\<lparr>trace := []\<rparr>)
     (gtk_tim2_sort_model_items_changed_cb (demo [10, 20, 30, 5]) 3 0 1 demo_sorted) =
   Some demo_appending"
  by code_simp

lemma remove_items_keeps:
  assumes "gtk_tim2_sort_model_remove_items pos removed added s = Some (s2, a, b)"
  shows "model s2 = model s" "sorter s2 = sorter s" "sort_cb s2 = sort_cb s"
    "tsort s2 = tsort s"
  using assms
  by (auto simp: gtk_tim2_sort_model_remove_items_def Let_def split: if_splits)

lemma items_changed_session:
  assumes S: "gtk_tim2_sort_model_should_sort E self"
    and N: "removed \<noteq> 0 \<or> added \<noteq> 0"
    and R: "gtk_tim2_sort_model_items_changed_cb E pos removed added self = Some self'"
  shows "sorter self' = sorter self"
    and "sort_cb self' = (if 0 < added \<or> sort_cb self \<noteq> 0 then g_idle_add else 0)"
    and "0 < added \<or> sort_cb self \<noteq> 0 \<Longrightarrow>
         tsort self' =
           tim_sort_set_already_sorted E (tim_sort_init E (items self') (sorter self'))
             (if sort_cb self \<noteq> 0 then 0 else of_nat (length (items self')) - added)"
    and "\<not> (0 < added \<or> sort_cb self \<noteq> 0) \<Longrightarrow> tsort self' = tsort self"
proof -
  let ?s1 = "gtk_tim2_sort_model_stop_sorting E self"
  from S N R obtain s2 a b where
    rm: "gtk_tim2_sort_model_remove_items pos removed added ?s1 = Some (s2, a, b)"
    by (auto simp: gtk_tim2_sort_model_items_changed_cb_def Let_def split: option.splits)
  note k = remove_items_keeps [OF rm]
  have s2: "sorter s2 = sorter self" "sort_cb s2 = 0"
    "tsort s2 = (if sort_cb self = 0 then tsort self else tim_sort_finish E (tsort self))"
    using k by (simp_all add: stop_sorting_fields)
  from S N rm have "gtk_tim2_sort_model_items_changed_cb E pos removed added self = Some
      (let s3 = (if 0 < added then
                   let s = append_items (fetch_items E (model s2) pos (pos + added)) s2
                   in gtk_tim2_sort_model_resort E
                        (if sort_cb self \<noteq> 0 then 0 else of_nat (length (items s)) - added) s
                 else if sort_cb self \<noteq> 0 then gtk_tim2_sort_model_resort E 0 s2
                 else s2);
           n = of_nat (length (items s3)) - a - b
       in emit (ItemsChanged a (n - added + removed) n) s3)"
    by (auto simp: gtk_tim2_sort_model_items_changed_cb_def Let_def
        gtk_tim2_sort_model_is_sorting_def)
  with R have self': "self' =
      (let s3 = (if 0 < added then
                   let s = append_items (fetch_items E (model s2) pos (pos + added)) s2
                   in gtk_tim2_sort_model_resort E
                        (if sort_cb self \<noteq> 0 then 0 else of_nat (length (items s)) - added) s
                 else if sort_cb self \<noteq> 0 then gtk_tim2_sort_model_resort E 0 s2
                 else s2);
           n = of_nat (length (items s3)) - a - b
       in emit (ItemsChanged a (n - added + removed) n) s3)"
    by simp
  show "sorter self' = sorter self"
    by (simp add: self' Let_def emit_fields resort_fields append_items_fields s2)
  show "sort_cb self' = (if 0 < added \<or> sort_cb self \<noteq> 0 then g_idle_add else 0)"
    by (simp add: self' Let_def emit_fields resort_fields append_items_fields s2)
  show "tsort self' =
           tim_sort_set_already_sorted E (tim_sort_init E (items self') (sorter self'))
             (if sort_cb self \<noteq> 0 then 0 else of_nat (length (items self')) - added)"
    if "0 < added \<or> sort_cb self \<noteq> 0"
    using that
    by (auto simp: self' Let_def emit_fields resort_fields append_items_fields s2)
  show "tsort self' = tsort self" if "\<not> (0 < added \<or> sort_cb self \<noteq> 0)"
    using that
    by (simp add: self' Let_def emit_fields s2)
qed

lemma survivors_none_removed: "survivors pos 0 xs = xs"
  by (simp add: survivors_def in_removed_range_def)

lemma length_reconciled:
  "length (reconciled pos removed added xs) = length (survivors pos removed xs)"
  by (simp add: reconciled_def)

lemma length_fetch_items: "length (fetch_items E m a b) = unat b - unat a"
  by (simp add: fetch_items_def)

lemma item_shift_position: "item (shift_position pos removed added si) = item si"
  by (simp add: shift_position_def)

lemma items_reconciled: "map item (reconciled pos removed added xs) = map item (survivors pos removed xs)"
  by (simp add: reconciled_def item_shift_position)


lemma items_changed_store:
  assumes S: "gtk_tim2_sort_model_should_sort E self"
    and N: "removed \<noteq> 0 \<or> added \<noteq> 0"
    and H: "unat pos + unat removed < 2 ^ 32"
    and L: "length (items self) < 2 ^ 32"
    and R: "gtk_tim2_sort_model_items_changed_cb E pos removed added self = Some self'"
  shows "length (filter (in_removed_range pos removed) (items self)) = unat removed"
    and "model self' = model self"
    and "items self' =
      reconciled pos removed added (items self) @
      (if 0 < added then fetch_items E (model self) pos (pos + added) else [])"
    and "\<exists>start n. trace self' =
      trace (after_append E pos removed added self) @
      [ItemsChanged start (n - added + removed) n]"
  using R unfolding items_changed_sorting [OF S N H L]
  by (auto simp: Let_def emit_fields after_append_fields split: if_splits)

section \<open>Positions of a populated store\<close>

text \<open>
  In a populated store every position below the size occurs once, so an edit inside the
  backing model drops exactly \<open>removed\<close> entries, and the store the handler leaves
  is populated for the new size.
\<close>

lemma distinct_map_unat: "distinct (map unat (ys :: guint list)) = distinct ys"
  by (auto simp: distinct_map inj_on_def intro: unsigned_word_eqI)

lemma distinct_posn: "distinct (map posn xs) = distinct (map position xs)"
proof -
  have "map posn xs = map unat (map position xs)"
    by (simp add: posn_def)
  then show ?thesis
    by (simp only: distinct_map_unat)
qed

lemma populated_posn_set:
  assumes "populated n xs"
  shows "set (map posn xs) = {0..<n}"
proof -
  from assms have d: "distinct (map posn xs)" and l: "length xs = n"
    and b: "\<forall>si\<in>set xs. posn si < n"
    by (simp_all add: populated_def distinct_posn posn_def)
  from b have sub: "set (map posn xs) \<subseteq> {0..<n}"
    by auto
  from distinct_card [OF d] l have "card (set (map posn xs)) = n"
    by simp
  then have "card (set (map posn xs)) = card {0..<n}"
    by simp
  with sub show ?thesis
    by (simp add: card_subset_eq)
qed

lemma in_removed_range_posn:
  "in_removed_range pos removed si =
     (unat pos \<le> posn si \<and> posn si < unat pos + unat removed)"
  by (simp add: in_removed_range_def posn_def)

lemma count_removed:
  assumes P: "populated n xs" and E: "unat pos + unat removed \<le> n"
  shows "length (filter (in_removed_range pos removed) xs) = unat removed"
proof -
  let ?Q = "\<lambda>k. unat pos \<le> k \<and> k < unat pos + unat removed"
  from P have d: "distinct (map posn xs)"
    by (simp add: populated_def distinct_posn)
  have "filter (in_removed_range pos removed) xs = filter (?Q \<circ> posn) xs"
    by (intro filter_cong refl) (simp add: in_removed_range_posn)
  then have "length (filter (in_removed_range pos removed) xs) =
      length (filter ?Q (map posn xs))"
    by (simp add: filter_map)
  also have "\<dots> = card (set (filter ?Q (map posn xs)))"
    using d by (simp only: distinct_card [OF distinct_filter])
  also have "set (filter ?Q (map posn xs)) = {k \<in> {0..<n}. ?Q k}"
    using populated_posn_set [OF P] by auto
  also have "{k \<in> {0..<n}. ?Q k} = {unat pos..<unat pos + unat removed}"
    using E by auto
  finally show ?thesis by simp
qed

lemma moved_positions:
  assumes d: "distinct ks" and b: "\<forall>k\<in>set ks. k < n" and e: "p + r \<le> n"
  shows "distinct (map (moved p r a) (filter (\<lambda>k. \<not> (p \<le> k \<and> k < p + r)) ks) @ [p..<p + a])"
    and "\<forall>k\<in>set (map (moved p r a) (filter (\<lambda>k. \<not> (p \<le> k \<and> k < p + r)) ks) @ [p..<p + a]).
           k < n - r + a"
proof -
  let ?K = "filter (\<lambda>k. \<not> (p \<le> k \<and> k < p + r)) ks"
  have inj: "inj_on (moved p r a) (set ?K)"
    by (auto simp: inj_on_def moved_def split: if_splits)
  have disj: "set (map (moved p r a) ?K) \<inter> set [p..<p + a] = {}"
    by (auto simp: moved_def split: if_splits)
  from d inj have "distinct (map (moved p r a) ?K)"
    by (simp add: distinct_map)
  with disj show "distinct (map (moved p r a) ?K @ [p..<p + a])"
    by simp
  show "\<forall>k\<in>set (map (moved p r a) ?K @ [p..<p + a]). k < n - r + a"
    using b e by (auto simp: moved_def split: if_splits)
qed

lemma posn_shift_position:
  assumes k: "posn si < n" and f: "n - unat removed + unat added < 2 ^ 32"
  shows "posn (shift_position pos removed added si) =
     moved (unat pos) (unat removed) (unat added) (posn si)"
proof (cases "unat pos + unat removed \<le> posn si")
  case False
  then show ?thesis
    by (simp add: shift_position_def moved_def posn_def)
next
  case True
  then have le: "removed \<le> position si"
    by (simp add: word_le_nat_alt posn_def)
  then have sub: "unat (position si - removed) = posn si - unat removed"
    by (simp add: unat_sub posn_def)
  have "posn si - unat removed + unat added < 2 ^ 32"
    using k f by arith
  then have "unat (position si - removed + added) = posn si - unat removed + unat added"
    using guint_unat_add [of "position si - removed" added] sub by simp
  with True show ?thesis
    by (simp add: shift_position_def moved_def posn_def)
qed

lemma posn_reconciled:
  assumes b: "\<forall>si\<in>set xs. posn si < n" and f: "n - unat removed + unat added < 2 ^ 32"
  shows "map posn (reconciled pos removed added xs) =
     map (moved (unat pos) (unat removed) (unat added))
       (filter (\<lambda>k. \<not> (unat pos \<le> k \<and> k < unat pos + unat removed)) (map posn xs))"
proof -
  have "map posn (reconciled pos removed added xs) =
      map (moved (unat pos) (unat removed) (unat added) \<circ> posn) (survivors pos removed xs)"
    using b by (auto simp: reconciled_def survivors_def posn_shift_position [OF _ f])
  also have "survivors pos removed xs =
      filter ((\<lambda>k. \<not> (unat pos \<le> k \<and> k < unat pos + unat removed)) \<circ> posn) xs"
    unfolding survivors_def by (intro filter_cong refl) (simp add: in_removed_range_posn)
  finally show ?thesis
    by (simp add: filter_map)
qed

lemma posn_fetch_items:
  assumes "unat pos + unat added < 2 ^ 32"
  shows "map posn (fetch_items E m pos (pos + added)) = [unat pos..<unat pos + unat added]"
proof -
  have "\<forall>i\<in>set [unat pos..<unat pos + unat added]. unat (of_nat i :: guint) = i"
    using assms by (auto intro: unat_of_nat_guint)
  then have "map (\<lambda>i. unat (of_nat i :: guint)) [unat pos..<unat pos + unat added] =
      map (\<lambda>i. i) [unat pos..<unat pos + unat added]"
    by (intro map_cong refl) simp
  then show ?thesis
    by (simp add: fetch_items_def posn_def guint_unat_add [OF assms] comp_def)
qed

lemma reconcile_populated:
  assumes P: "populated n xs" and e: "unat pos + unat removed \<le> n"
    and f: "n - unat removed + unat added < 2 ^ 32"
  shows "populated (n - unat removed + unat added)
     (reconciled pos removed added xs @ fetch_items E m pos (pos + added))"
proof -
  let ?ys = "reconciled pos removed added xs @ fetch_items E m pos (pos + added)"
  from P have d: "distinct (map posn xs)" and b: "\<forall>si\<in>set xs. posn si < n"
    and l: "length xs = n"
    by (simp_all add: populated_def distinct_posn posn_def)
  have pa: "unat pos + unat added < 2 ^ 32"
    using e f by arith
  have b': "\<forall>k\<in>set (map posn xs). k < n"
    using b by simp
  have m: "map posn ?ys =
      map (moved (unat pos) (unat removed) (unat added))
        (filter (\<lambda>k. \<not> (unat pos \<le> k \<and> k < unat pos + unat removed)) (map posn xs)) @
      [unat pos..<unat pos + unat added]"
    by (simp add: posn_reconciled [OF b f] posn_fetch_items [OF pa])
  have "distinct (map posn ?ys)"
    unfolding m by (rule moved_positions(1) [OF d b' e])
  then have D: "distinct (map position ?ys)"
    by (simp only: distinct_posn)
  have "\<forall>k\<in>set (map posn ?ys). k < n - unat removed + unat added"
    unfolding m by (rule moved_positions(2) [OF d b' e])
  then have B: "\<forall>si\<in>set ?ys. unat (position si) < n - unat removed + unat added"
    by (auto simp: posn_def)
  have "length ?ys = n - unat removed + unat added"
    using length_survivors [of pos removed xs] count_removed [OF P e] l pa
    by (simp add: length_reconciled length_fetch_items guint_unat_add)
  with D B show ?thesis
    unfolding populated_def by blast
qed

section \<open>The store stays in step with the backing model\<close>

text \<open>
  A store is in step with the model when it is populated while the object sorts and
  empty while it does not. Every operation that starts with the store in step leaves
  it in step, the handler of the sorter's \<^verbatim>\<open>changed\<close> also for the order
  the sorter has taken since; the handler of an edit that starts with the store in
  step returns; and a store in step is empty or populated for the model.
\<close>

lemma synced_fields:
  "model s' = model s \<Longrightarrow> sorter s' = sorter s \<Longrightarrow> items s' = items s \<Longrightarrow>
   store_synced E s' = store_synced E s"
  by (simp add: store_synced_def backing_def should_sort_fields [of s' s])

lemma synced_unsorted:
  "items s = [] \<Longrightarrow> \<not> gtk_tim2_sort_model_should_sort E s \<Longrightarrow> store_synced E s"
  by (simp add: store_synced_def)

lemma synced_nonempty:
  assumes "store_synced E s" and "items s \<noteq> []"
  shows "populated (length (backing E s)) (items s)" and "model s \<noteq> None"
    and "gtk_tim2_sort_model_should_sort E s"
  using assms
  by (auto simp: store_synced_def gtk_tim2_sort_model_should_sort_def
      split: if_splits option.splits)

lemma clear_items_fields:
  "model (gtk_tim2_sort_model_clear_items E s) = model s"
  "sorter (gtk_tim2_sort_model_clear_items E s) = sorter s"
  "items (gtk_tim2_sort_model_clear_items E s) = []"
  "sort_cb (gtk_tim2_sort_model_clear_items E s) = 0"
  by (simp_all add: gtk_tim2_sort_model_clear_items_def Let_def stop_sorting_fields)

lemma create_items_fields:
  "model (gtk_tim2_sort_model_create_items E s) = model s"
  "sorter (gtk_tim2_sort_model_create_items E s) = sorter s"
  "sort_cb (gtk_tim2_sort_model_create_items E s) = sort_cb s"
  "tsort (gtk_tim2_sort_model_create_items E s) = tsort s"
  "items (gtk_tim2_sort_model_create_items E s) =
     items s @
     (if gtk_tim2_sort_model_should_sort E s
      then fetch_items E (model s) 0 (g_list_model_get_n_items E (model s)) else [])"
  by (simp_all add: gtk_tim2_sort_model_create_items_def Let_def append_items_fields)

lemma populated_empty: "populated 0 []"
  by (simp add: populated_def)

lemma populated_fetch_all:
  assumes "n < 2 ^ 32"
  shows "populated n (fetch_items E m 0 (of_nat n))"
proof -
  have u: "unat (of_nat n :: guint) = n"
    using assms by (rule unat_of_nat_guint)
  have "populated (0 - unat (0 :: guint) + unat (of_nat n :: guint))
      (reconciled 0 0 (of_nat n) [] @ fetch_items E m 0 (0 + of_nat n))"
    using assms by (intro reconcile_populated [OF populated_empty]) (simp_all add: u)
  then show ?thesis
    by (simp add: u reconciled_def survivors_def)
qed

lemma n_items_model:
  "g_list_model_get_n_items E (model s) = of_nat (length (backing E s))"
  by (simp add: g_list_model_get_n_items_def backing_def split: option.splits)

lemma backing_fits: "lists_fit E \<Longrightarrow> length (backing E s) < 2 ^ 32"
  by (simp add: lists_fit_def backing_def split: option.splits)

lemma synced_create_items:
  assumes F: "lists_fit E" and e: "items s = []"
  shows "store_synced E (gtk_tim2_sort_model_create_items E s)"
proof -
  let ?c = "gtk_tim2_sort_model_create_items E s"
  have sh: "gtk_tim2_sort_model_should_sort E ?c = gtk_tim2_sort_model_should_sort E s"
    by (rule should_sort_fields) (simp_all add: create_items_fields)
  have bk: "backing E ?c = backing E s"
    by (simp add: backing_def create_items_fields)
  show ?thesis
    using e populated_fetch_all [OF backing_fits [OF F, of s], of E "model s"]
    by (simp add: store_synced_def sh bk create_items_fields n_items_model)
qed

lemma synced_resort:
  "store_synced E (gtk_tim2_sort_model_resort E a s) = store_synced E s"
  by (rule synced_fields) (simp_all add: resort_fields)

lemma synced_emit: "store_synced E (emit a s) = store_synced E s"
  by (rule synced_fields) (simp_all add: emit_fields)

lemma synced_stop_sorting:
  "store_synced E (gtk_tim2_sort_model_stop_sorting E s) = store_synced E s"
  by (rule synced_fields) (simp_all add: stop_sorting_fields)

lemma synced_sorter_changed:
  assumes F: "lists_fit E" and s: "sorter s = Some srt"
    and p: "items s \<noteq> [] \<Longrightarrow> populated (length (backing E s)) (items s) \<and> model s \<noteq> None"
  shows "store_synced E (gtk_tim2_sort_model_sorter_changed_cb E srt s)"
proof -
  let ?s1 = "if sorter_order E srt = GTK_SORTER_ORDER_NONE then
               gtk_tim2_sort_model_clear_items E s
             else if items s = [] then gtk_tim2_sort_model_create_items E s
             else s"
  have "store_synced E ?s1"
  proof (cases "sorter_order E srt = GTK_SORTER_ORDER_NONE")
    case True
    then have "\<not> gtk_tim2_sort_model_should_sort E (gtk_tim2_sort_model_clear_items E s)"
      using s by (simp add: gtk_tim2_sort_model_should_sort_def clear_items_fields)
    with True show ?thesis
      by (simp add: synced_unsorted clear_items_fields)
  next
    case False
    show ?thesis
    proof (cases "items s = []")
      case True
      with False show ?thesis
        by (simp add: synced_create_items [OF F])
    next
      case ne: False
      from p [OF ne] s False have "gtk_tim2_sort_model_should_sort E s"
        by (simp add: gtk_tim2_sort_model_should_sort_def)
      with p [OF ne] False ne show ?thesis
        by (simp add: store_synced_def)
    qed
  qed
  then show ?thesis
    by (simp add: gtk_tim2_sort_model_sorter_changed_cb_def Let_def synced_resort synced_emit)
qed

lemma clear_model_fields:
  "model (gtk_tim2_sort_model_clear_model E s) = None"
  "sorter (gtk_tim2_sort_model_clear_model E s) = sorter s"
  "store_synced E s \<Longrightarrow> items (gtk_tim2_sort_model_clear_model E s) = []"
  by (auto simp: gtk_tim2_sort_model_clear_model_def clear_items_fields store_synced_def
      gtk_tim2_sort_model_should_sort_def split: option.splits if_splits)

lemma clear_sorter_fields:
  "sorter (gtk_tim2_sort_model_clear_sorter E s) = None"
  "model (gtk_tim2_sort_model_clear_sorter E s) = model s"
  "store_synced E s \<Longrightarrow> items (gtk_tim2_sort_model_clear_sorter E s) = []"
  by (auto simp: gtk_tim2_sort_model_clear_sorter_def clear_items_fields store_synced_def
      gtk_tim2_sort_model_should_sort_def split: option.splits if_splits)

lemma synced_set_model:
  assumes F: "lists_fit E" and S: "store_synced E s"
  shows "store_synced E (gtk_tim2_sort_model_set_model E m s)"
proof (cases "model s = m")
  case True
  with S show ?thesis
    by (simp add: gtk_tim2_sort_model_set_model_def)
next
  case False
  let ?s1 = "gtk_tim2_sort_model_clear_model E s"
  let ?s2 = "if m \<noteq> None then
               gtk_tim2_sort_model_resort E 0
                 (gtk_tim2_sort_model_create_items E (?s1\<lparr>model := m\<rparr>))
             else ?s1"
  have "store_synced E ?s2"
  proof (cases "m = None")
    case True
    have "\<not> gtk_tim2_sort_model_should_sort E ?s1"
      by (simp add: gtk_tim2_sort_model_should_sort_def clear_model_fields
          split: option.splits)
    with True show ?thesis
      by (simp add: synced_unsorted clear_model_fields(3) [OF S])
  next
    case False
    have "items (?s1\<lparr>model := m\<rparr>) = []"
      by (simp add: clear_model_fields(3) [OF S])
    with False show ?thesis
      by (simp add: synced_resort synced_create_items [OF F])
  qed
  with False show ?thesis
    by (simp add: gtk_tim2_sort_model_set_model_def Let_def synced_emit)
qed

lemma synced_set_sorter:
  assumes F: "lists_fit E" and S: "store_synced E s"
  shows "store_synced E (gtk_tim2_sort_model_set_sorter E n s)"
proof -
  let ?s1 = "gtk_tim2_sort_model_clear_sorter E s"
  have e: "items ?s1 = []"
    by (rule clear_sorter_fields(3) [OF S])
  show ?thesis
  proof (cases n)
    case None
    have "\<not> gtk_tim2_sort_model_should_sort E ?s1"
      by (simp add: gtk_tim2_sort_model_should_sort_def clear_sorter_fields)
    then have "store_synced E ?s1"
      using e by (rule synced_unsorted [rotated])
    with None show ?thesis
      by (simp add: gtk_tim2_sort_model_set_sorter_def Let_def synced_emit)
  next
    case (Some srt)
    have "store_synced E (gtk_tim2_sort_model_sorter_changed_cb E srt (?s1\<lparr>sorter := Some srt\<rparr>))"
      by (rule synced_sorter_changed [OF F]) (simp_all add: e)
    with Some show ?thesis
      by (simp add: gtk_tim2_sort_model_set_sorter_def Let_def synced_emit)
  qed
qed

lemma synced_init: "store_synced E (gtk_tim2_sort_model_init E)"
  by (simp add: store_synced_def gtk_tim2_sort_model_init_def
      gtk_tim2_sort_model_should_sort_def)

lemma synced_dispose:
  assumes S: "store_synced E s"
  shows "store_synced E (gtk_tim2_sort_model_dispose E s)"
proof -
  let ?s1 = "gtk_tim2_sort_model_clear_model E s"
  have "\<not> gtk_tim2_sort_model_should_sort E ?s1"
    by (simp add: gtk_tim2_sort_model_should_sort_def clear_model_fields
        split: option.splits)
  then have "store_synced E ?s1"
    using clear_model_fields(3) [OF S] by (rule synced_unsorted [rotated])
  then have e: "items (gtk_tim2_sort_model_clear_sorter E ?s1) = []"
    by (rule clear_sorter_fields(3))
  have "\<not> gtk_tim2_sort_model_should_sort E (gtk_tim2_sort_model_clear_sorter E ?s1)"
    by (simp add: gtk_tim2_sort_model_should_sort_def clear_sorter_fields)
  then show ?thesis
    using e unfolding gtk_tim2_sort_model_dispose_def by (rule synced_unsorted [rotated])
qed

lemma populated_mset:
  assumes "mset ys = mset xs" and "populated n xs"
  shows "populated n ys"
proof -
  from assms(1) have l: "length ys = length xs"
    by (rule mset_eq_length)
  from assms(1) have s: "set ys = set xs"
    by (rule mset_eq_setD)
  from assms(1) have "mset (map position ys) = mset (map position xs)"
    by simp
  then have "distinct (map position ys) = distinct (map position xs)"
    by (rule mset_eq_imp_distinct_iff)
  with l s assms(2) show ?thesis
    by (simp add: populated_def)
qed

lemma synced_sort_cb:
  assumes P: "step_permutes E" and S: "store_synced E s"
  shows "store_synced E (fst (gtk_tim2_sort_model_sort_cb E s))"
proof -
  obtain b t xs where st: "tim_sort_step E (tsort s) (items s) = (b, t, xs)"
    by (cases "tim_sort_step E (tsort s) (items s)") auto
  from P have "mset (snd (snd (tim_sort_step E (tsort s) (items s)))) = mset (items s)"
    unfolding step_permutes_def by blast
  then have m: "mset xs = mset (items s)"
    by (simp add: st)
  let ?s' = "s\<lparr>tsort := t, items := xs\<rparr>"
  have sh: "gtk_tim2_sort_model_should_sort E ?s' = gtk_tim2_sort_model_should_sort E s"
    by (rule should_sort_fields) simp_all
  have "store_synced E ?s'"
  proof (cases "gtk_tim2_sort_model_should_sort E s")
    case True
    with S have "populated (length (backing E s)) (items s)"
      by (simp add: store_synced_def)
    from populated_mset [OF m this] True show ?thesis
      by (simp add: store_synced_def sh backing_def)
  next
    case False
    with S have "items s = []"
      by (simp add: store_synced_def)
    with m have "items ?s' = []"
      by simp
    moreover from False sh have "\<not> gtk_tim2_sort_model_should_sort E ?s'"
      by simp
    ultimately show ?thesis
      by (rule synced_unsorted)
  qed
  then show ?thesis
    by (simp add: gtk_tim2_sort_model_sort_cb_def st Let_def synced_emit synced_stop_sorting)
qed

lemma should_sort_env:
  "sorter_order E' = sorter_order E \<Longrightarrow>
   gtk_tim2_sort_model_should_sort E' s = gtk_tim2_sort_model_should_sort E s"
  by (simp add: gtk_tim2_sort_model_should_sort_def split: option.splits)

lemma backing_env: "list_items E' = list_items E \<Longrightarrow> backing E' s = backing E s"
  by (simp add: backing_def split: option.splits)

lemma fetch_items_none: "fetch_items E m pos (pos + 0) = []"
  by (simp add: fetch_items_def)

lemma edit_on_synced:
  assumes F: "lists_fit E" and S: "store_synced E self" and M: "model self = Some m"
    and B: "list_items E m = before @ old @ after"
    and N: "length (before @ new @ after) < 2 ^ 32"
    and E': "E' = E\<lparr>list_items := (list_items E)(m := before @ new @ after)\<rparr>"
  shows "\<exists>self'. gtk_tim2_sort_model_items_changed_cb E' (of_nat (length before))
           (of_nat (length old)) (of_nat (length new)) self = Some self'"
    and "gtk_tim2_sort_model_items_changed_cb E' (of_nat (length before))
           (of_nat (length old)) (of_nat (length new)) self = Some self' \<Longrightarrow>
         store_synced E' self'"
proof -
  let ?pos = "of_nat (length before) :: guint"
  let ?removed = "of_nat (length old) :: guint"
  let ?added = "of_nat (length new) :: guint"
  let ?n = "length (before @ old @ after)"
  let ?n' = "length (before @ new @ after)"
  have n: "?n < 2 ^ 32"
    using F B [symmetric] by (simp add: lists_fit_def del: length_append)
  have up: "unat ?pos = length before" and ur: "unat ?removed = length old"
    and ua: "unat ?added = length new"
    using n N by (simp_all add: unat_of_nat_guint)
  have sh: "gtk_tim2_sort_model_should_sort E' self = gtk_tim2_sort_model_should_sort E self"
    by (rule should_sort_env) (simp add: E')
  have bk: "backing E self = before @ old @ after" and bk': "backing E' self = before @ new @ after"
    using M B by (simp_all add: backing_def E')
  have H: "unat ?pos + unat ?removed < 2 ^ 32"
    using n by (simp add: up ur)
  have e: "unat ?pos + unat ?removed \<le> ?n"
    by (simp add: up ur)
  have f: "?n - unat ?removed + unat ?added < 2 ^ 32"
    using N by (simp add: ur ua)
  have n': "?n - unat ?removed + unat ?added = ?n'"
    by (simp add: ur ua)
  show "\<exists>self'. gtk_tim2_sort_model_items_changed_cb E' ?pos ?removed ?added self = Some self'"
  proof (cases "gtk_tim2_sort_model_should_sort E self \<and> (?removed \<noteq> 0 \<or> ?added \<noteq> 0)")
    case False
    then show ?thesis
      by (auto simp: gtk_tim2_sort_model_items_changed_cb_def sh)
  next
    case True
    then have P: "populated ?n (items self)"
      using S by (simp add: store_synced_def bk)
    then have L: "length (items self) < 2 ^ 32"
      using n by (simp add: populated_def)
    from True have S': "gtk_tim2_sort_model_should_sort E' self"
      and Nz: "?removed \<noteq> 0 \<or> ?added \<noteq> 0"
      by (simp_all add: sh)
    show ?thesis
      by (simp add: items_changed_sorting [OF S' Nz H L] count_removed [OF P e] Let_def)
  qed
  show "store_synced E' self'"
    if R: "gtk_tim2_sort_model_items_changed_cb E' ?pos ?removed ?added self = Some self'"
  proof (cases "?removed = 0 \<and> ?added = 0")
    case True
    then have "length old = 0" and "length new = 0"
      using ur ua by simp_all
    then have "backing E' self = backing E self"
      by (simp add: bk bk')
    moreover from True R have "self' = self"
      by (simp add: gtk_tim2_sort_model_items_changed_cb_def)
    ultimately show ?thesis
      using S by (simp add: store_synced_def sh)
  next
    case False
    then have Nz: "?removed \<noteq> 0 \<or> ?added \<noteq> 0"
      by simp
    show ?thesis
    proof (cases "gtk_tim2_sort_model_should_sort E self")
      case ns: False
      with S have "items self = []"
        by (simp add: store_synced_def)
      moreover from ns False R
      have "self' = emit (ItemsChanged ?pos ?removed ?added) self"
        by (auto simp: gtk_tim2_sort_model_items_changed_cb_def sh)
      ultimately show ?thesis
        using ns by (simp add: synced_emit synced_unsorted sh)
    next
      case True
      then have S': "gtk_tim2_sort_model_should_sort E' self"
        by (simp add: sh)
      from True S have P: "populated ?n (items self)"
        by (simp add: store_synced_def bk)
      then have L: "length (items self) < 2 ^ 32"
        using n by (simp add: populated_def)
      note st = items_changed_store [OF S' Nz H L R]
      note ses = items_changed_session [OF S' Nz R]
      have "items self' =
          reconciled ?pos ?removed ?added (items self) @
          fetch_items E' (model self) ?pos (?pos + ?added)"
      proof (cases "0 < ?added")
        case True
        with st(3) show ?thesis by simp
      next
        case False
        then have z: "?added = 0"
          using word_neq_0_conv [of ?added] by blast
        have "fetch_items E' (model self) ?pos (?pos + ?added) = []"
          unfolding z by (rule fetch_items_none)
        with st(3) False show ?thesis by simp
      qed
      then have "populated ?n' (items self')"
        using reconcile_populated [OF P e f, of E' "model self"] by (simp only: n')
      moreover have "gtk_tim2_sort_model_should_sort E' self'"
        using S' should_sort_fields [OF st(2) ses(1), of E'] by simp
      moreover have "backing E' self' = before @ new @ after"
        using bk' st(2) by (simp add: backing_def)
      ultimately show ?thesis
        by (simp add: store_synced_def)
    qed
  qed
qed

lemma synced_new:
  "lists_fit E \<Longrightarrow> store_synced E (gtk_tim2_sort_model_new E m s)"
  by (simp add: gtk_tim2_sort_model_new_def synced_set_sorter synced_set_model synced_init)

lemma synced_order_changed:
  assumes F: "lists_fit E" and S: "store_synced E self" and s: "sorter self = Some srt"
  shows "store_synced (E\<lparr>sorter_order := so\<rparr>)
           (gtk_tim2_sort_model_sorter_changed_cb (E\<lparr>sorter_order := so\<rparr>) srt self)"
proof -
  let ?E = "E\<lparr>sorter_order := so\<rparr>"
  from F have F': "lists_fit ?E"
    by (simp add: lists_fit_def)
  show ?thesis
  proof (rule synced_sorter_changed [OF F' s])
    assume "items self \<noteq> []"
    with S show "populated (length (backing ?E self)) (items self) \<and> model self \<noteq> None"
      using synced_nonempty(1,2) [of E self] backing_env [of ?E E self] by simp
  qed
qed

lemma synced_invariant:
  "store_synced E self \<Longrightarrow>
   items self = [] \<or>
   length (items self) = length (backing E self) \<and>
   distinct (map position (items self)) \<and>
   (\<forall>si\<in>set (items self). unat (position si) < length (backing E self))"
  by (auto simp: store_synced_def populated_def split: if_splits)

lemma demo_lists_fit: "length xs < 2 ^ 32 \<Longrightarrow> lists_fit (demo xs)"
  by (simp add: lists_fit_def demo_def demo_env_def demo_lists_def)

lemma demo_step_permutes: "step_permutes (demo xs)"
proof -
  have "mset (snd (snd (demo_step t ys))) = mset ys" for t ys
  proof (cases "t < length ys")
    case True
    have "mset ys = mset (take t ys @ ys ! t # drop (Suc t) ys)"
      using id_take_nth_drop [OF True] by simp
    with True show ?thesis
      by (simp add: demo_step_def)
  next
    case False
    then show ?thesis
      by (simp add: demo_step_def)
  qed
  then show ?thesis
    by (simp add: step_permutes_def demo_def demo_env_def)
qed

section \<open>The setters\<close>

text \<open>
  The guards of the two functions that start and stop a sort, the setter of the model
  on the model it holds, and the notifications both setters end with.
\<close>

lemma start_sorting_guarded:
  "sort_cb self \<noteq> 0 \<Longrightarrow> gtk_tim2_sort_model_start_sorting self = self"
  by (simp add: gtk_tim2_sort_model_start_sorting_def)

lemma stop_sorting_idle:
  "sort_cb self = 0 \<Longrightarrow> gtk_tim2_sort_model_stop_sorting E self = self"
  by (simp add: gtk_tim2_sort_model_stop_sorting_def)

lemma same_model_ignored:
  "model self = m \<Longrightarrow> gtk_tim2_sort_model_set_model E m self = self"
  by (simp add: gtk_tim2_sort_model_set_model_def)

lemma setters_notify:
  "model self \<noteq> m \<Longrightarrow>
   last (trace (gtk_tim2_sort_model_set_model E m self)) = Notify PROP_MODEL"
  "last (trace (gtk_tim2_sort_model_set_sorter E s self)) = Notify PROP_SORTER"
  by (simp_all add: gtk_tim2_sort_model_set_model_def gtk_tim2_sort_model_set_sorter_def
      Let_def emit_fields)

lemma append_notified_wrapped:
  "map_option trace
     (gtk_tim2_sort_model_items_changed_cb (demo [10, 20, 30, 5]) 3 0 1 demo_sorted) =
   Some [ArraySetSize 3, ArrayAppend \<lparr>item = Some 5, position = 3\<rparr>, IdleAdd,
         Notify PROP_SORTING, ItemsChanged 3 4294967293 4294967294]"
  by code_simp

section \<open>The notified range\<close>

text \<open>
  The numbers \<^verbatim>\<open>start\<close> and \<^verbatim>\<open>end\<close> of the scan are the sizes of
  the untouched bands at the front and the back of the store, the notification of the
  edit handler is computed from them, and for an edit that only removes it covers the
  change of the view.
\<close>

lemma untouched_prefix_less:
  "\<exists>x\<in>set xs. in_removed_range pos removed x \<Longrightarrow>
   untouched_prefix pos removed xs < length xs"
  by (induction xs) (auto simp: untouched_prefix_def)

lemma untouched_prefix_all:
  "\<forall>x\<in>set xs. \<not> in_removed_range pos removed x \<Longrightarrow>
   untouched_prefix pos removed xs = length xs"
  by (induct xs) (simp_all add: untouched_prefix_def)

lemma guint_min_add:
  assumes "unat (v :: guint) + k < 2 ^ 32"
  shows "min (min a v) (v + of_nat k) = min a v"
proof -
  have k: "unat (of_nat k :: guint) = k"
    using assms by (intro unat_of_nat_guint) arith
  have "unat (v + of_nat k) = unat v + k"
    using guint_unat_add [of v "of_nat k"] assms k by simp
  then have "v \<le> v + of_nat k"
    by (simp add: word_le_nat_alt)
  then show ?thesis
    by (intro min.absorb1 min.coboundedI2)
qed

lemma loop_ustart:
  assumes H: "unat pos + unat removed < 2 ^ 32"
  shows "unat (valid st) + length xs < 2 ^ 32 \<Longrightarrow>
     ustart (remove_items_loop pos removed added n i xs st) =
       (if \<exists>si\<in>set xs. in_removed_range pos removed si
        then min (ustart st) (valid st + of_nat (untouched_prefix pos removed xs))
        else ustart st)"
proof (induction xs arbitrary: i st)
  case Nil
  show ?case by simp
next
  case (Cons si xs)
  show ?case
  proof (cases "in_removed_range pos removed si")
    case True
    let ?st = "st\<lparr>ustart := min (ustart st) (valid st), uend := n - i - 1,
      released := released st @ sort_item_clear si\<rparr>"
    have b: "unat (valid ?st) + length xs < 2 ^ 32"
      using Cons.prems by simp
    have p: "unat (valid st) + untouched_prefix pos removed xs < 2 ^ 32"
      using Cons.prems length_takeWhile_le [of "\<lambda>si. \<not> in_removed_range pos removed si" xs]
      by (simp add: untouched_prefix_def)
    show ?thesis
      using True
      by (simp add: remove_items_body_cases [OF H] Cons.IH [OF b] untouched_prefix_def
          guint_min_add [OF p [unfolded untouched_prefix_def]])
  next
    case False
    let ?st = "st\<lparr>kept := kept st @ [shift_position pos removed added si],
      valid := valid st + 1\<rparr>"
    have "unat (valid st) + 1 < 2 ^ 32"
      using Cons.prems by simp
    then have v: "unat (valid st + 1) = unat (valid st) + 1"
      using guint_unat_add [of "valid st" 1] by simp
    then have b: "unat (valid ?st) + length xs < 2 ^ 32"
      using Cons.prems by simp
    show ?thesis
      using False
      by (simp add: remove_items_body_cases [OF H] keep_item_def Cons.IH [OF b]
          untouched_prefix_def add.assoc)
  qed
qed

lemma scan_ustart:
  assumes H: "unat pos + unat removed < 2 ^ 32" and L: "length xs < 2 ^ 32"
  shows "ustart (scan_store pos removed added xs) = of_nat (untouched_prefix pos removed xs)"
proof (cases "\<exists>si\<in>set xs. in_removed_range pos removed si")
  case True
  have le: "untouched_prefix pos removed xs \<le> length xs"
    by (simp add: untouched_prefix_def length_takeWhile_le)
  then have "(of_nat (untouched_prefix pos removed xs) :: guint) \<le> of_nat (length xs)"
    using L by (simp add: word_le_nat_alt unat_of_nat_guint)
  then show ?thesis
    using True L by (simp add: scan_store_def loop_ustart [OF H] min_def)
next
  case False
  then have "untouched_prefix pos removed xs = length xs"
    by (intro untouched_prefix_all) simp
  with False show ?thesis
    using L by (simp add: scan_store_def loop_ustart [OF H])
qed

lemma untouched_suffix_Cons:
  "untouched_suffix pos removed (si # xs) =
     (if \<exists>x\<in>set xs. in_removed_range pos removed x then untouched_suffix pos removed xs
      else if in_removed_range pos removed si then length xs
      else Suc (length xs))"
proof (cases "\<exists>x\<in>set xs. in_removed_range pos removed x")
  case True
  then obtain x where "x \<in> set (rev xs)" and "\<not> \<not> in_removed_range pos removed x"
    by auto
  then have "takeWhile (\<lambda>si. \<not> in_removed_range pos removed si) (rev xs @ [si]) =
      takeWhile (\<lambda>si. \<not> in_removed_range pos removed si) (rev xs)"
    by (rule takeWhile_append1)
  with True show ?thesis
    by (simp add: untouched_suffix_def untouched_prefix_def)
next
  case False
  then have "\<And>x. x \<in> set (rev xs) \<Longrightarrow> \<not> in_removed_range pos removed x"
    by simp
  then have "takeWhile (\<lambda>si. \<not> in_removed_range pos removed si) (rev xs @ [si]) =
      rev xs @ takeWhile (\<lambda>si. \<not> in_removed_range pos removed si) [si]"
    by (rule takeWhile_append2)
  with False show ?thesis
    by (simp add: untouched_suffix_def untouched_prefix_def)
qed

lemma untouched_suffix_less:
  assumes "\<exists>x\<in>set xs. in_removed_range pos removed x"
  shows "untouched_suffix pos removed xs < length xs"
  using assms untouched_prefix_less [of "rev xs" pos removed]
  by (simp add: untouched_suffix_def)

lemma loop_uend:
  assumes H: "unat pos + unat removed < 2 ^ 32"
  shows "uend (remove_items_loop pos removed added n i xs st) =
       (if \<exists>si\<in>set xs. in_removed_range pos removed si
        then n - (i + of_nat (length xs - 1 - untouched_suffix pos removed xs)) - 1
        else uend st)"
proof (induction xs arbitrary: i st)
  case Nil
  show ?case by simp
next
  case (Cons si xs)
  show ?case
  proof (cases "\<exists>x\<in>set xs. in_removed_range pos removed x")
    case True
    from untouched_suffix_less [OF True]
    have "length xs - untouched_suffix pos removed xs =
        Suc (length xs - 1 - untouched_suffix pos removed xs)"
      by arith
    with True show ?thesis
      by (simp add: Cons.IH untouched_suffix_Cons add.assoc)
  next
    case False
    then show ?thesis
      by (simp add: Cons.IH untouched_suffix_Cons remove_items_body_cases [OF H]
          keep_item_def)
  qed
qed

lemma scan_uend:
  assumes H: "unat pos + unat removed < 2 ^ 32"
  shows "uend (scan_store pos removed added xs) = of_nat (untouched_suffix pos removed xs)"
proof (cases "\<exists>si\<in>set xs. in_removed_range pos removed si")
  case True
  from untouched_suffix_less [OF True]
  have "length xs =
      (length xs - 1 - untouched_suffix pos removed xs) + 1 +
      untouched_suffix pos removed xs"
    by arith
  then have "(of_nat (length xs) :: guint) =
      of_nat (length xs - 1 - untouched_suffix pos removed xs) + 1 +
      of_nat (untouched_suffix pos removed xs)"
    by (metis of_nat_add of_nat_1)
  with True show ?thesis
    by (simp add: scan_store_def loop_uend [OF H])
next
  case False
  then have "untouched_suffix pos removed xs = length xs"
    using untouched_prefix_all [of "rev xs" pos removed] by (simp add: untouched_suffix_def)
  with False show ?thesis
    by (simp add: scan_store_def loop_uend [OF H])
qed

lemma edit_notification:
  assumes S: "gtk_tim2_sort_model_should_sort E self"
    and N: "removed \<noteq> 0 \<or> added \<noteq> 0"
    and H: "unat pos + unat removed < 2 ^ 32"
    and L: "length (items self) < 2 ^ 32"
    and R: "gtk_tim2_sort_model_items_changed_cb E pos removed added self = Some self'"
  shows "last (trace self') =
     (let start = of_nat (untouched_prefix pos removed (items self));
          n = of_nat (length (items self')) - start -
              of_nat (untouched_suffix pos removed (items self))
      in ItemsChanged start (n - added + removed) n)"
  using R unfolding items_changed_sorting [OF S N H L]
  by (auto simp: Let_def emit_fields scan_ustart [OF H L] scan_uend [OF H] split: if_splits)

lemma prefix_of_survivors:
  "take (untouched_prefix pos removed xs) (survivors pos removed xs) =
   take (untouched_prefix pos removed xs) xs"
  by (induction xs) (simp_all add: untouched_prefix_def survivors_def)

lemma survivors_rev: "survivors pos removed (rev xs) = rev (survivors pos removed xs)"
  by (simp add: survivors_def rev_filter)

lemma untouched_prefix_survive:
  "untouched_prefix pos removed xs \<le> length (survivors pos removed xs)"
  by (induction xs) (simp_all add: untouched_prefix_def survivors_def)

lemma untouched_suffix_survive:
  "untouched_suffix pos removed xs \<le> length (survivors pos removed xs)"
  using untouched_prefix_survive [of pos removed "rev xs"]
  by (simp add: untouched_suffix_def survivors_rev)

lemma untouched_bands_survive:
  "\<exists>x\<in>set xs. in_removed_range pos removed x \<Longrightarrow>
   untouched_prefix pos removed xs + untouched_suffix pos removed xs \<le>
   length (survivors pos removed xs)"
proof (induction xs)
  case Nil
  then show ?case by simp
next
  case (Cons si xs)
  show ?case
  proof (cases "in_removed_range pos removed si")
    case True
    have "untouched_suffix pos removed (si # xs) \<le> length (survivors pos removed xs)"
      using untouched_suffix_survive [of pos removed xs] True
      by (simp add: untouched_suffix_Cons survivors_def)
    with True show ?thesis
      by (simp add: untouched_prefix_def survivors_def)
  next
    case False
    with Cons.prems have ex: "\<exists>x\<in>set xs. in_removed_range pos removed x"
      by simp
    from Cons.IH [OF ex] False ex show ?thesis
      by (simp add: untouched_suffix_Cons untouched_prefix_def survivors_def)
  qed
qed

lemma suffix_of_survivors:
  "drop (length (survivors pos removed xs) - untouched_suffix pos removed xs)
     (survivors pos removed xs) =
   drop (length xs - untouched_suffix pos removed xs) xs"
proof -
  let ?k = "untouched_suffix pos removed xs"
  have le: "?k \<le> length xs"
    by (simp add: untouched_suffix_def untouched_prefix_def length_takeWhile_le
        le_trans [OF length_takeWhile_le])
  have "rev (drop (length (survivors pos removed xs) - ?k) (survivors pos removed xs)) =
      take ?k (survivors pos removed (rev xs))"
    using untouched_suffix_survive [of pos removed xs] by (simp add: rev_drop survivors_rev)
  also have "\<dots> = take ?k (rev xs)"
    unfolding untouched_suffix_def by (rule prefix_of_survivors)
  also have "\<dots> = rev (drop (length xs - ?k) xs)"
    using le by (simp add: rev_drop)
  finally show ?thesis
    by simp
qed

lemma removal_notification_covers:
  assumes S: "gtk_tim2_sort_model_should_sort E self"
    and N: "removed \<noteq> 0"
    and H: "unat pos + unat removed < 2 ^ 32"
    and L: "length (items self) < 2 ^ 32"
    and R: "gtk_tim2_sort_model_items_changed_cb E pos removed 0 self = Some self'"
  shows "\<exists>start n.
     last (trace self') = ItemsChanged start (n + removed) n \<and>
     notified_range_covers (map item (items self)) (map item (items self'))
       start (n + removed) n"
proof -
  define xs where "xs = items self"
  define up where "up = untouched_prefix pos removed xs"
  define us where "us = untouched_suffix pos removed xs"
  define sv where "sv = survivors pos removed xs"
  define m where "m = length sv - up - us"
  have N': "removed \<noteq> 0 \<or> (0 :: guint) \<noteq> 0"
    using N by simp
  note st = items_changed_store [OF S N' H L R]
  have c: "length (filter (in_removed_range pos removed) xs) = unat removed"
    unfolding xs_def by (rule st(1))
  have "unat removed \<noteq> 0"
    using N by (simp add: unat_eq_zero)
  with c have "filter (in_removed_range pos removed) xs \<noteq> []"
    by auto
  then have ex: "\<exists>x\<in>set xs. in_removed_range pos removed x"
    by (simp add: filter_empty_conv)
  have sum: "length sv + unat removed = length xs"
    using length_survivors [of pos removed xs] c by (simp add: sv_def)
  have bands: "up + us \<le> length sv"
    unfolding up_def us_def sv_def by (rule untouched_bands_survive [OF ex])
  have i: "map item (items self') = map item sv" and l: "length (items self') = length sv"
    using st(3) by (simp_all add: items_reconciled length_reconciled sv_def xs_def)
  have L': "length xs < 2 ^ 32"
    using L by (simp add: xs_def)
  have up: "unat (of_nat up :: guint) = up"
    using bands sum L' by (intro unat_of_nat_guint) arith
  have "length sv = m + up + us"
    using bands by (simp add: m_def)
  then have "(of_nat (length sv) :: guint) = of_nat m + of_nat up + of_nat us"
    by (metis of_nat_add)
  then have n: "(of_nat (length sv) :: guint) - of_nat up - of_nat us = of_nat m"
    by simp
  have mb: "m + unat removed < 2 ^ 32"
    using sum L' by (simp add: m_def)
  then have m: "unat (of_nat m :: guint) = m"
    by (intro unat_of_nat_guint) arith
  have r: "unat (of_nat m + removed :: guint) = m + unat removed"
    using guint_unat_add [of "of_nat m" removed] mb by (simp add: m)
  have emitted: "last (trace self') = ItemsChanged (of_nat up) (of_nat m + removed) (of_nat m)"
    using edit_notification [OF S N' H L R, folded xs_def, folded up_def us_def]
    by (simp add: Let_def l n)
  have front: "take up (map item sv) = take up (map item xs)"
    by (simp add: take_map prefix_of_survivors up_def sv_def)
  have rear: "drop (up + m) (map item sv) = drop (up + (m + unat removed)) (map item xs)"
  proof -
    have a: "up + m = length sv - us"
      using bands by (simp add: m_def)
    have b: "up + (m + unat removed) = length xs - us"
      using bands sum by (simp add: m_def)
    show ?thesis
      unfolding a b by (simp add: drop_map suffix_of_survivors us_def sv_def)
  qed
  have "notified_range_covers (map item (items self)) (map item (items self'))
      (of_nat up) (of_nat m + removed) (of_nat m)"
    using front rear by (simp add: notified_range_covers_def i up m r xs_def)
  with emitted show ?thesis
    by blast
qed

section \<open>Item lookup\<close>

text \<open>
  Claim C7. Let the backing model hold fewer than \<open>2 ^ 32\<close> items and the store be
  empty or as long as the backing model. Then
  \<^verbatim>\<open>gtk_tim2_sort_model_get_item\<close> at a position returns the backing model's
  item there when the store is empty, the item of the store's entry there when the
  store is not empty, and \<open>None\<close> (\<^verbatim>\<open>NULL\<close>, no error) at every position that
  is not below \<^verbatim>\<open>gtk_tim2_sort_model_get_n_items\<close>.
\<close>

theorem get_item_lookup:
  assumes "length (backing E self) < 2 ^ 32"
    and "items self = [] \<or> length (items self) = length (backing E self)"
  shows "(items self = [] \<and> unat pos < length (backing E self) \<longrightarrow>
            gtk_tim2_sort_model_get_item E self pos = Some (backing E self ! unat pos)) \<and>
         (items self \<noteq> [] \<and> unat pos < length (items self) \<longrightarrow>
            gtk_tim2_sort_model_get_item E self pos = item (items self ! unat pos)) \<and>
         (gtk_tim2_sort_model_get_n_items E self \<le> pos \<longrightarrow>
            gtk_tim2_sort_model_get_item E self pos = None)"
proof (intro conjI impI)
  assume "items self = [] \<and> unat pos < length (backing E self)"
  then show "gtk_tim2_sort_model_get_item E self pos = Some (backing E self ! unat pos)"
    by (auto simp: gtk_tim2_sort_model_get_item_def g_list_model_get_item_def backing_def
        split: option.splits)
next
  assume a: "items self \<noteq> [] \<and> unat pos < length (items self)"
  with assms(2) have "model self \<noteq> None"
    by (auto simp: backing_def split: option.splits)
  with a show "gtk_tim2_sort_model_get_item E self pos = item (items self ! unat pos)"
    by (auto simp: gtk_tim2_sort_model_get_item_def)
next
  assume "gtk_tim2_sort_model_get_n_items E self \<le> pos"
  with assms(1) have le: "length (backing E self) \<le> unat pos"
    by (simp add: n_items_backing guint_le_of_nat)
  show "gtk_tim2_sort_model_get_item E self pos = None"
  proof (cases "items self = []")
    case True
    with le show ?thesis
      by (auto simp: gtk_tim2_sort_model_get_item_def g_list_model_get_item_def backing_def
          split: option.splits)
  next
    case False
    with assms(2) le show ?thesis
      by (simp add: gtk_tim2_sort_model_get_item_def)
  qed
qed

theorem get_item_lookup_witness:
  "length (backing (demo [10, 20, 30]) demo_unsorted) < 2 ^ 32 \<and>
   items demo_unsorted = [] \<and>
   gtk_tim2_sort_model_get_item (demo [10, 20, 30]) demo_unsorted 1 = Some 20 \<and>
   gtk_tim2_sort_model_get_n_items (demo [10, 20, 30]) demo_unsorted \<le> 3 \<and>
   gtk_tim2_sort_model_get_item (demo [10, 20, 30]) demo_unsorted 3 = None \<and>
   length (items demo_replaced) = length (backing (demo [40, 20, 30]) demo_replaced) \<and>
   gtk_tim2_sort_model_get_item (demo [40, 20, 30]) demo_replaced 0 = Some 20"
proof -
  let ?E = "demo [10, 20, 30]"
  have fit: "length (backing ?E demo_unsorted) < 2 ^ 32"
    by (simp add: backing_def demo_unsorted_def demo_def demo_env_def demo_lists_def)
  have store: "items demo_unsorted = []"
    by (simp add: demo_unsorted_def)
  have pos: "unat (1 :: guint) < length (backing ?E demo_unsorted)"
    by (simp add: backing_def demo_unsorted_def demo_def demo_env_def demo_lists_def)
  have le: "gtk_tim2_sort_model_get_n_items ?E demo_unsorted \<le> 3"
    by (simp add: n_items_backing backing_def demo_unsorted_def demo_def demo_env_def
        demo_lists_def)
  have val: "backing ?E demo_unsorted ! unat (1 :: guint) = 20"
    by (simp add: backing_def demo_unsorted_def demo_def demo_env_def demo_lists_def)
  from get_item_lookup [OF fit disjI1 [OF store], of 1] store pos val
  have a: "gtk_tim2_sort_model_get_item ?E demo_unsorted 1 = Some 20"
    by simp
  from get_item_lookup [OF fit disjI1 [OF store], of 3] le
  have b: "gtk_tim2_sort_model_get_item ?E demo_unsorted 3 = None"
    by simp
  let ?F = "demo [40, 20, 30]"
  have fit': "length (backing ?F demo_replaced) < 2 ^ 32"
    by (simp add: backing_def demo_replaced_def demo_def demo_env_def demo_lists_def)
  have store': "length (items demo_replaced) = length (backing ?F demo_replaced)"
    by (simp add: backing_def demo_replaced_def demo_def demo_env_def demo_lists_def)
  have ne: "items demo_replaced \<noteq> []" and pos': "unat (0 :: guint) < length (items demo_replaced)"
    and val': "item (items demo_replaced ! unat (0 :: guint)) = Some 20"
    by (simp_all add: demo_replaced_def)
  from get_item_lookup [OF fit' disjI2 [OF store'], of 0] ne pos' val'
  have c: "gtk_tim2_sort_model_get_item ?F demo_replaced 0 = Some 20"
    by simp
  from fit store a le b store' c show ?thesis by simp
qed

section \<open>The idle callback\<close>

text \<open>
  Claim C8. When \<^verbatim>\<open>gtk_tim_sort_step\<close> reports that it performed a step
  (the session had work left), the idle callback takes over the sort state and the
  array as the step left them, emits exactly one \<^verbatim>\<open>items-changed\<close>, which is
  \<open>(0, n, n)\<close> for the number \<open>n\<close> of entries in the store, and returns
  \<^verbatim>\<open>G_SOURCE_CONTINUE\<close>. This holds for every sort engine.
\<close>

theorem sort_step_notifies:
  "tim_sort_step E (tsort self) (items self) = (True, t, xs) \<Longrightarrow>
   gtk_tim2_sort_model_sort_cb E self =
     (self\<lparr>tsort := t, items := xs,
            trace := trace self @
              [ItemsChanged 0 (of_nat (length xs)) (of_nat (length xs))]\<rparr>, True)"
  by (simp add: gtk_tim2_sort_model_sort_cb_def emit_def Let_def)

theorem sort_step_notifies_witness:
  "tim_sort_step (demo [10, 20, 30]) (tsort demo_sorting) (items demo_sorting) =
     (True, 1, items demo_sorting) \<and>
   trace (fst (gtk_tim2_sort_model_sort_cb (demo [10, 20, 30]) demo_sorting)) =
     [ItemsChanged 0 3 3]"
proof -
  have step: "tim_sort_step (demo [10, 20, 30]) (tsort demo_sorting) (items demo_sorting) =
      (True, 1, items demo_sorting)"
    by code_simp
  have "trace (fst (gtk_tim2_sort_model_sort_cb (demo [10, 20, 30]) demo_sorting)) =
      [ItemsChanged 0 3 3]"
    by (simp add: sort_step_notifies [OF step]) (simp add: demo_sorting_def)
  with step show ?thesis by simp
qed

section \<open>Edits while the object does not sort\<close>

text \<open>
  Claim C6. While \<^verbatim>\<open>gtk_tim2_sort_model_should_sort\<close> is false (no model,
  no sorter, or a sorter without an order), the handler of an edit emits exactly the
  notification \<open>(position, removed, added)\<close> and changes nothing else of the
  object: the store, the sort and the idle source stay as they were. An edit is one
  that removes or adds something, \<open>removed \<noteq> 0\<close> or \<open>added \<noteq> 0\<close>: the
  call with \<open>removed = 0\<close> and \<open>added = 0\<close> is the one the specification sets
  aside as doing nothing, and the handler returns from it at its first test (lemma
  \<open>empty_edit_ignored\<close>).
\<close>

theorem degraded_edit_forwarded:
  "\<not> gtk_tim2_sort_model_should_sort E self \<Longrightarrow> removed \<noteq> 0 \<or> added \<noteq> 0 \<Longrightarrow>
   gtk_tim2_sort_model_items_changed_cb E pos removed added self =
     Some (self\<lparr>trace := trace self @ [ItemsChanged pos removed added]\<rparr>)"
  by (auto simp: gtk_tim2_sort_model_items_changed_cb_def emit_def)

theorem degraded_edit_forwarded_witness:
  "\<not> gtk_tim2_sort_model_should_sort (demo [10, 20]) demo_unsorted \<and>
   gtk_tim2_sort_model_items_changed_cb (demo [10, 20]) 2 1 0 demo_unsorted =
     Some (demo_unsorted\<lparr>trace := [ItemsChanged 2 1 0]\<rparr>)"
proof -
  have deg: "\<not> gtk_tim2_sort_model_should_sort (demo [10, 20]) demo_unsorted"
    by (simp add: gtk_tim2_sort_model_should_sort_def demo_unsorted_def)
  have ne: "(1 :: guint) \<noteq> 0 \<or> (0 :: guint) \<noteq> 0"
    by simp
  from degraded_edit_forwarded [OF deg ne, of 2] deg show ?thesis
    by (simp add: demo_unsorted_def)
qed

section \<open>Edits while the object sorts\<close>

text \<open>
  Claim C1. Let the object sort (\<^verbatim>\<open>gtk_tim2_sort_model_should_sort\<close>) and
  let the handler of an edit return; an edit is one that removes or adds something,
  \<open>removed \<noteq> 0\<close> or \<open>added \<noteq> 0\<close> (the call with both zero is the one the
  specification sets aside as doing nothing: lemma \<open>empty_edit_ignored\<close>).
  If a sort was under way when the edit arrived (\<open>sort_cb \<noteq> 0\<close>), then afterwards a
  sort is under way whose state is a \<^verbatim>\<open>GtkTimSort\<close> initialised over the new
  store with \<^verbatim>\<open>already_sorted = 0\<close>. If none was under way and nothing was
  removed, then afterwards a sort is under way, initialised over the new store with
  \<^verbatim>\<open>already_sorted\<close> the size of the new store minus \<open>added\<close>; and when the
  old store has fewer than \<open>2 ^ 32\<close> entries and \<open>pos + added\<close> does not wrap,
  this number is the size of the store before the edit. (The handler does return for
  every edit its model reports while the store is in step with the model: lemma
  \<open>edit_on_synced\<close>.)
\<close>

theorem edit_restarts_sort:
  assumes S: "gtk_tim2_sort_model_should_sort E self"
    and N: "removed \<noteq> 0 \<or> added \<noteq> 0"
    and R: "gtk_tim2_sort_model_items_changed_cb E pos removed added self = Some self'"
  shows "(sort_cb self \<noteq> 0 \<longrightarrow>
            sort_cb self' \<noteq> 0 \<and>
            tsort self' =
              tim_sort_set_already_sorted E
                (tim_sort_init E (items self') (sorter self')) 0) \<and>
         (sort_cb self = 0 \<and> removed = 0 \<longrightarrow>
            sort_cb self' \<noteq> 0 \<and>
            tsort self' =
              tim_sort_set_already_sorted E
                (tim_sort_init E (items self') (sorter self'))
                (of_nat (length (items self')) - added)) \<and>
         (sort_cb self = 0 \<and> removed = 0 \<and> length (items self) < 2 ^ 32 \<and>
          unat pos + unat added < 2 ^ 32 \<longrightarrow>
            length (items self') = length (items self) + unat added \<and>
            of_nat (length (items self')) - added = (of_nat (length (items self)) :: guint))"
proof (intro conjI impI)
  note ses = items_changed_session [OF S N R]
  {
    assume "sort_cb self \<noteq> 0"
    then show "sort_cb self' \<noteq> 0"
      and "tsort self' =
        tim_sort_set_already_sorted E (tim_sort_init E (items self') (sorter self')) 0"
      using ses(2) ses(3) by (simp_all add: g_idle_add_nonzero)
  }
  {
    assume a: "sort_cb self = 0 \<and> removed = 0"
    with N have "0 < added"
      by (simp add: word_neq_0_conv)
    with a show "sort_cb self' \<noteq> 0"
      and "tsort self' =
        tim_sort_set_already_sorted E (tim_sort_init E (items self') (sorter self'))
          (of_nat (length (items self')) - added)"
      using ses(2) ses(3) by (simp_all add: g_idle_add_nonzero)
  }
  {
    assume a: "sort_cb self = 0 \<and> removed = 0 \<and> length (items self) < 2 ^ 32 \<and>
      unat pos + unat added < 2 ^ 32"
    then have z: "removed = 0" and L: "length (items self) < 2 ^ 32"
      and A: "unat pos + unat added < 2 ^ 32"
      by simp_all
    from N z have pa: "0 < added"
      by (simp add: word_neq_0_conv)
    have H: "unat pos + unat removed < 2 ^ 32"
      using z A by simp
    have "items self' =
        reconciled pos removed added (items self) @
        fetch_items E (model self) pos (pos + added)"
      using items_changed_store(3) [OF S N H L R] pa by simp
    then show len: "length (items self') = length (items self) + unat added"
      using z A
      by (simp add: length_reconciled survivors_none_removed length_fetch_items
          guint_unat_add)
    show "of_nat (length (items self')) - added = (of_nat (length (items self)) :: guint)"
      by (simp add: len)
  }
qed

theorem edit_restarts_sort_witness:
  "gtk_tim2_sort_model_should_sort (demo [10, 20, 30, 5]) demo_sorting \<and>
   sort_cb demo_sorting \<noteq> 0 \<and>
   gtk_tim2_sort_model_items_changed_cb (demo [10, 20, 30, 5]) 3 0 1 demo_sorting =
     Some (demo_appending\<lparr>tsort := 0,
       trace := [SourceRemove, Notify PROP_SORTING, ArraySetSize 3,
         ArrayAppend \<lparr>item = Some 5, position = 3\<rparr>, IdleAdd, Notify PROP_SORTING,
         ItemsChanged 3 4294967293 4294967294]\<rparr>) \<and>
   tim_sort_set_already_sorted (demo [10, 20, 30, 5])
     (tim_sort_init (demo [10, 20, 30, 5]) (items demo_appending) (Some 7)) 0 = 0 \<and>
   gtk_tim2_sort_model_should_sort (demo [10, 20, 30, 5]) demo_sorted \<and>
   sort_cb demo_sorted = 0 \<and>
   gtk_tim2_sort_model_items_changed_cb (demo [10, 20, 30, 5]) 3 0 1 demo_sorted =
     Some (demo_appending\<lparr>
       trace := [ArraySetSize 3, ArrayAppend \<lparr>item = Some 5, position = 3\<rparr>, IdleAdd,
         Notify PROP_SORTING, ItemsChanged 3 4294967293 4294967294]\<rparr>) \<and>
   tim_sort_set_already_sorted (demo [10, 20, 30, 5])
     (tim_sort_init (demo [10, 20, 30, 5]) (items demo_appending) (Some 7))
     (of_nat (length (items demo_sorted))) = 3"
proof -
  let ?E = "demo [10, 20, 30, 5]"
  let ?r = "demo_appending\<lparr>tsort := 0,
       trace := [SourceRemove, Notify PROP_SORTING, ArraySetSize 3,
         ArrayAppend \<lparr>item = Some 5, position = 3\<rparr>, IdleAdd, Notify PROP_SORTING,
         ItemsChanged 3 4294967293 4294967294]\<rparr>"
  let ?q = "demo_appending\<lparr>
       trace := [ArraySetSize 3, ArrayAppend \<lparr>item = Some 5, position = 3\<rparr>, IdleAdd,
         Notify PROP_SORTING, ItemsChanged 3 4294967293 4294967294]\<rparr>"
  have S: "gtk_tim2_sort_model_should_sort ?E demo_sorting"
    by code_simp
  have N: "(0 :: guint) \<noteq> 0 \<or> (1 :: guint) \<noteq> 0"
    by simp
  have R: "gtk_tim2_sort_model_items_changed_cb ?E 3 0 1 demo_sorting = Some ?r"
    by code_simp
  have A: "sort_cb demo_sorting \<noteq> 0"
    by (simp add: demo_sorting_def)
  from edit_restarts_sort [OF S N R] A
  have "tsort ?r = tim_sort_set_already_sorted ?E (tim_sort_init ?E (items ?r) (sorter ?r)) 0"
    by simp
  then have a: "tim_sort_set_already_sorted ?E
      (tim_sort_init ?E (items demo_appending) (Some 7)) 0 = 0"
    by (simp add: demo_appending_def)
  have S': "gtk_tim2_sort_model_should_sort ?E demo_sorted"
    by code_simp
  have R': "gtk_tim2_sort_model_items_changed_cb ?E 3 0 1 demo_sorted = Some ?q"
    by code_simp
  have I: "sort_cb demo_sorted = 0" and L: "length (items demo_sorted) < 2 ^ 32"
    by (simp_all add: demo_sorted_def)
  have W: "unat (3 :: guint) + unat (1 :: guint) < 2 ^ 32"
    by simp
  from edit_restarts_sort [OF S' N R'] I L W
  have "tsort ?q =
      tim_sort_set_already_sorted ?E (tim_sort_init ?E (items ?q) (sorter ?q))
        (of_nat (length (items ?q)) - 1) \<and>
      of_nat (length (items ?q)) - 1 = (of_nat (length (items demo_sorted)) :: guint)"
    by simp
  then have b: "tim_sort_set_already_sorted ?E
      (tim_sort_init ?E (items demo_appending) (Some 7))
      (of_nat (length (items demo_sorted))) = 3"
    by (simp add: demo_appending_def)
  from S A R a S' I R' b show ?thesis by simp
qed



section \<open>The reconciliation scan\<close>

text \<open>
  Claim C2. Let the store hold \<open>n < 2 ^ 32\<close> entries whose positions are pairwise
  distinct and below \<open>n\<close>, and let the edit remove inside the backing model
  (\<open>pos + removed \<le> n\<close>). Then \<^verbatim>\<open>gtk_tim2_sort_model_remove_items\<close>
  returns (its assertion holds), and it leaves the store as the entries whose position
  was outside \<open>[pos, pos + removed)\<close>, in the order they had, each entry at
  \<open>pos + removed\<close> or above with the position \<^verbatim>\<open>position - removed + added\<close>
  and each entry below \<open>pos\<close> as it was; it has given back the item reference of
  every entry in the range and cut the vector to \<open>n - removed\<close> entries.
\<close>

theorem remove_items_reconciles:
  assumes "n < 2 ^ 32"
    and "length (items self) = n"
    and "distinct (map position (items self))"
    and "\<forall>si\<in>set (items self). unat (position si) < n"
    and "unat pos + unat removed \<le> n"
  shows "\<exists>start finish.
     gtk_tim2_sort_model_remove_items pos removed added self =
       Some (self\<lparr>items := map (shift_position pos removed added)
                             (filter (\<lambda>si. \<not> in_removed_range pos removed si) (items self)),
                   trace := trace self @
                     concat (map sort_item_clear
                       (filter (in_removed_range pos removed) (items self))) @
                     [ArraySetSize (n - unat removed)]\<rparr>,
             start, finish)"
proof -
  from assms have P: "populated n (items self)"
    by (simp add: populated_def)
  have H: "unat pos + unat removed < 2 ^ 32"
    using assms(1) assms(5) by arith
  have L: "length (items self) < 2 ^ 32"
    using assms(1) assms(2) by simp
  have c: "length (filter (in_removed_range pos removed) (items self)) = unat removed"
    by (rule count_removed [OF P assms(5)])
  have k: "length (survivors pos removed (items self)) = n - unat removed"
    using length_survivors [of pos removed "items self"] c assms(2) by arith
  show ?thesis
    by (simp add: remove_items_result [OF H L] c k [unfolded survivors_def] reconciled_def
        survivors_def)
qed

theorem remove_items_reconciles_witness:
  "length (items demo_sorted) = 3 \<and>
   distinct (map position (items demo_sorted)) \<and>
   gtk_tim2_sort_model_remove_items 0 1 1 demo_sorted =
     Some (demo_sorted\<lparr>
             items := [\<lparr>item = Some 20, position = 1\<rparr>, \<lparr>item = Some 30, position = 2\<rparr>],
             trace := [ObjectUnref 10, ArraySetSize 2]\<rparr>, 0, 2) \<and>
   map (shift_position 0 1 1) (filter (\<lambda>si. \<not> in_removed_range 0 1 si) (items demo_sorted)) =
     [\<lparr>item = Some 20, position = 1\<rparr>, \<lparr>item = Some 30, position = 2\<rparr>]"
proof -
  have n: "(3 :: nat) < 2 ^ 32"
    by simp
  have l: "length (items demo_sorted) = 3"
    by (simp add: demo_sorted_def)
  have d: "distinct (map position (items demo_sorted))"
    by (simp add: demo_sorted_def)
  have b: "\<forall>si\<in>set (items demo_sorted). unat (position si) < 3"
    by (simp add: demo_sorted_def)
  have e: "unat (0 :: guint) + unat (1 :: guint) \<le> 3"
    by simp
  have r: "gtk_tim2_sort_model_remove_items 0 1 1 demo_sorted =
     Some (demo_sorted\<lparr>
             items := [\<lparr>item = Some 20, position = 1\<rparr>, \<lparr>item = Some 30, position = 2\<rparr>],
             trace := [ObjectUnref 10, ArraySetSize 2]\<rparr>, 0, 2)"
    by code_simp
  from remove_items_reconciles [OF n l d b e, of 1] r
  have "map (shift_position 0 1 1)
      (filter (\<lambda>si. \<not> in_removed_range 0 1 si) (items demo_sorted)) =
      [\<lparr>item = Some 20, position = 1\<rparr>, \<lparr>item = Some 30, position = 2\<rparr>]"
    by (auto dest: arg_cong [where f = items])
  with l d r show ?thesis by simp
qed

section \<open>The invariant of the store\<close>

text \<open>
  Claim C4 fails on the code. A store in step with the model is empty or populated as
  the claim says (lemma \<open>synced_invariant\<close>), and the operations keep it in step
  (lemmas \<open>synced_new\<close>, \<open>synced_set_model\<close>, \<open>synced_set_sorter\<close>,
  \<open>synced_order_changed\<close>, \<open>edit_on_synced\<close>). But the two handlers judge by
  different things whether the store is populated: the handler of the sorter's
  \<^verbatim>\<open>changed\<close> fills the store when it finds it empty
  (\<^verbatim>\<open>sort_array_is_empty\<close>), the handler of an edit asks the sorter for its
  order anew (\<^verbatim>\<open>gtk_tim2_sort_model_should_sort\<close>). The object is constructed
  over \<open>[10, 20, 30]\<close> with a sorter that reports no order, so its store is empty.
  The sorter takes a total order, and before the handler of its \<^verbatim>\<open>changed\<close>
  has run the model appends the item 5 and emits \<open>(3, 0, 1)\<close>. The edit handler
  finds that the object sorts, scans the empty store and appends the one added entry:
  the store holds one entry, with the position 3, for a model of four items. The
  handler of \<^verbatim>\<open>changed\<close>, run afterwards, finds the store not empty and
  leaves it as it is; the object reports four items and returns an item at the first
  position only. Had the model removed its first item instead, the assertion of
  \<^verbatim>\<open>gtk_tim2_sort_model_remove_items\<close> would have failed.
\<close>

theorem stale_order_breaks_store:
  "(gtk_tim2_sort_model_new (demo_unordered [10, 20, 30]) (Some 1) (Some 7))\<lparr>trace := []\<rparr> =
     demo_passing \<and>
   items demo_passing = [] \<and>
   gtk_tim2_sort_model_should_sort (demo [10, 20, 30, 5]) demo_passing \<and>
   gtk_tim2_sort_model_items_changed_cb (demo [10, 20, 30, 5]) 3 0 1 demo_passing =
     Some demo_stale \<and>
   items demo_stale = [\<lparr>item = Some 5, position = 3\<rparr>] \<and>
   length (backing (demo [10, 20, 30, 5]) demo_stale) = 4 \<and>
   items (gtk_tim2_sort_model_sorter_changed_cb (demo [10, 20, 30, 5]) 7 demo_stale) =
     [\<lparr>item = Some 5, position = 3\<rparr>] \<and>
   gtk_tim2_sort_model_get_n_items (demo [10, 20, 30, 5])
     (gtk_tim2_sort_model_sorter_changed_cb (demo [10, 20, 30, 5]) 7 demo_stale) = 4 \<and>
   view (demo [10, 20, 30, 5])
     (gtk_tim2_sort_model_sorter_changed_cb (demo [10, 20, 30, 5]) 7 demo_stale) =
     [Some 5, None, None, None] \<and>
   gtk_tim2_sort_model_items_changed_cb (demo [20, 30]) 0 1 0 demo_passing = None"
  by code_simp

section \<open>Where the code departs from the specification\<close>

text \<open>
  Claim C3 fails on the code. The notification is the one the claim's formula gives
  (lemma \<open>edit_notification\<close>: \<^verbatim>\<open>start\<close> and \<^verbatim>\<open>end\<close> are the numbers
  of entries before the first and behind the last dropped entry), but the range it
  names can be too narrow. The sorted object shows \<open>[10, 20, 30]\<close>; its model
  replaces the item at position 0 by 40. The handler drops the entry of 10, appends the
  entry of 40 behind the two entries that stay, and emits \<open>(0, 1, 1)\<close>: the store had
  no entry before the dropped one and two behind it. The view is now
  \<open>[20, 30, 40]\<close>, so the items at the positions 1 and 2 have changed as well, and the
  notified range does not cover them. (For an edit that only removes, the range does
  cover the change: lemma \<open>removal_notification_covers\<close>.)
\<close>

theorem replacement_notified_too_narrow:
  "view (demo [10, 20, 30]) demo_sorted = [Some 10, Some 20, Some 30] \<and>
   gtk_tim2_sort_model_items_changed_cb (demo [40, 20, 30]) 0 1 1 demo_sorted =
     Some demo_replaced \<and>
   last (trace demo_replaced) = ItemsChanged 0 1 1 \<and>
   view (demo [40, 20, 30]) demo_replaced = [Some 20, Some 30, Some 40] \<and>
   \<not> notified_range_covers (view (demo [10, 20, 30]) demo_sorted)
       (view (demo [40, 20, 30]) demo_replaced) 0 1 1"
  by code_simp

text \<open>
  Claim C5 fails on the code. An object constructed with a sorter and no model has an
  idle source installed: \<^verbatim>\<open>gtk_tim2_sort_model_sorter_changed_cb\<close> ends in
  \<^verbatim>\<open>gtk_tim2_sort_model_resort\<close> whether the object sorts or not. Setting a
  model then appends the model's items to the store
  (\<^verbatim>\<open>gtk_tim2_sort_model_create_items\<close>) while that source is installed; the
  source is removed only afterwards, by the following
  \<^verbatim>\<open>gtk_tim2_sort_model_resort\<close>.
\<close>

theorem store_filled_while_sorting:
  "sort_cb (gtk_tim2_sort_model_new (demo [10, 20]) None (Some 7)) \<noteq> 0 \<and>
   trace (gtk_tim2_sort_model_set_model (demo [10, 20]) (Some 1)
            (gtk_tim2_sort_model_new (demo [10, 20]) None (Some 7))) =
     [IdleAdd, Notify PROP_SORTING, Notify PROP_SORTER,
      ArrayAppend \<lparr>item = Some 10, position = 0\<rparr>,
      ArrayAppend \<lparr>item = Some 20, position = 1\<rparr>,
      SourceRemove, Notify PROP_SORTING, IdleAdd, Notify PROP_SORTING,
      ItemsChanged 0 0 2, Notify PROP_MODEL] \<and>
   mutates_while_sorting False
     (trace (gtk_tim2_sort_model_set_model (demo [10, 20]) (Some 1)
               (gtk_tim2_sort_model_new (demo [10, 20]) None (Some 7))))"
  by code_simp

text \<open>
  Claim C9 fails on the code for the sorter. The sorted object holds the sorter at
  address 7; setting that same sorter clears the store, gives back and fetches again
  every item, starts a sort and emits \<^verbatim>\<open>items-changed\<close> and the notification
  of the property. (\<^verbatim>\<open>gtk_tim2_sort_model_set_model\<close> does return at once for
  the model it holds: lemma \<open>same_model_ignored\<close>.)
\<close>

theorem same_sorter_rebuilds:
  "gtk_tim2_sort_model_get_sorter demo_sorted = Some 7 \<and>
   gtk_tim2_sort_model_set_sorter (demo [10, 20, 30]) (Some 7) demo_sorted =
     demo_sorted\<lparr>tsort := 0, sort_cb := 1,
       trace := [ArrayClear, ObjectUnref 10, ObjectUnref 20, ObjectUnref 30,
                 ArrayAppend \<lparr>item = Some 10, position = 0\<rparr>,
                 ArrayAppend \<lparr>item = Some 20, position = 1\<rparr>,
                 ArrayAppend \<lparr>item = Some 30, position = 2\<rparr>,
                 IdleAdd, Notify PROP_SORTING, ItemsChanged 0 3 3, Notify PROP_SORTER]\<rparr> \<and>
   gtk_tim2_sort_model_set_sorter (demo [10, 20, 30]) (Some 7) demo_sorted \<noteq> demo_sorted"
  by code_simp

end
